theory Spec2Isabelle
  imports Main "HOL-Library.Sublist"
begin

section \<open>JavaScript values used by the routing and session layer\<close>

text \<open>
  Optional properties (\<^verbatim>\<open>accountId?: string\<close>, \<^verbatim>\<open>string | null\<close>) are options.
  A JavaScript condition on such a value tests truthiness: \<^verbatim>\<open>undefined\<close>, \<^verbatim>\<open>null\<close> and
  the empty string are falsy, every other string is truthy.
\<close>

definition truthy :: "string option \<Rightarrow> bool" where
  "truthy v = (case v of None \<Rightarrow> False | Some s \<Rightarrow> s \<noteq> [])"

section \<open>Message router (src/routing/router.ts)\<close>

text \<open>
  The type \<^verbatim>\<open>AgentBinding\<close> is imported by router.ts from the configuration types;
  its shape is the one router.ts reads: \<^verbatim>\<open>{agentId, match: {channel, accountId?, peer?: {kind, id}}}\<close>.
  Field names carry a prefix because several interfaces of the program share them.
\<close>

datatype PeerKind = Dm | Group

record PeerMatch =
  peer_kind :: PeerKind
  peer_id :: string

record BindingMatch =
  m_channel :: string
  m_accountId :: "string option"
  m_peer :: "PeerMatch option"

record AgentBinding =
  b_agentId :: string
  b_match :: BindingMatch

record RoutingContext =
  ctx_channel :: string
  ctx_accountId :: "string option"
  ctx_peerId :: "string option"
  ctx_peerKind :: "PeerKind option"

datatype MatchLevel = Peer | Account | Channel | Default

record RoutingResult =
  r_agentId :: string
  r_matchedBinding :: "AgentBinding option"
  r_matchLevel :: MatchLevel

record MessageRouter =
  bindings :: "AgentBinding list"
  defaultAgentId :: string

text \<open>\<^verbatim>\<open>getMatchLevel\<close>: \<^verbatim>\<open>null\<close> is \<open>None\<close>.\<close>

definition getMatchLevel :: "AgentBinding \<Rightarrow> RoutingContext \<Rightarrow> MatchLevel option" where
  "getMatchLevel binding ctx =
     (if m_channel (b_match binding) \<noteq> ctx_channel ctx then None
      else case m_peer (b_match binding) of
        Some p \<Rightarrow>
          if \<not> truthy (ctx_peerId ctx) \<or> ctx_peerKind ctx = None then None
          else if Some (peer_kind p) \<noteq> ctx_peerKind ctx then None
          else if Some (peer_id p) \<noteq> ctx_peerId ctx then None
          else if truthy (m_accountId (b_match binding))
                  \<and> m_accountId (b_match binding) \<noteq> ctx_accountId ctx then None
          else Some Peer
      | None \<Rightarrow>
          if truthy (m_accountId (b_match binding)) then
            (if m_accountId (b_match binding) \<noteq> ctx_accountId ctx then None else Some Account)
          else Some Channel)"

definition getSpecificityScore :: "AgentBinding \<Rightarrow> int" where
  "getSpecificityScore binding =
     (let score = 0;
          score = (if m_peer (b_match binding) \<noteq> None then score + 100 else score);
          score = (if truthy (m_accountId (b_match binding)) then score + 10 else score);
          score = score + 1
      in score)"

text \<open>
  \<^verbatim>\<open>[...bindings].sort((a, b) => score(b) - score(a))\<close>: the array sort of the language
  is stable, and the comparator orders by descending score, so the result is the stable
  sort by the key \<open>- score\<close>.
\<close>

definition sortBySpecificity :: "AgentBinding list \<Rightarrow> AgentBinding list" where
  "sortBySpecificity bs = sort_key (\<lambda>b. - getSpecificityScore b) bs"

definition createRouter :: "AgentBinding list \<Rightarrow> string \<Rightarrow> MessageRouter" where
  "createRouter bs d = \<lparr>bindings = sortBySpecificity bs, defaultAgentId = d\<rparr>"

text \<open>The \<^verbatim>\<open>for\<close> loop of \<^verbatim>\<open>route\<close>, returning at the first binding with a match level.\<close>

fun route_loop :: "AgentBinding list \<Rightarrow> string \<Rightarrow> RoutingContext \<Rightarrow> RoutingResult" where
  "route_loop [] d ctx = \<lparr>r_agentId = d, r_matchedBinding = None, r_matchLevel = Default\<rparr>"
| "route_loop (binding # rest) d ctx =
     (case getMatchLevel binding ctx of
        Some matchLevel \<Rightarrow>
          \<lparr>r_agentId = b_agentId binding, r_matchedBinding = Some binding,
           r_matchLevel = matchLevel\<rparr>
      | None \<Rightarrow> route_loop rest d ctx)"

definition route :: "MessageRouter \<Rightarrow> RoutingContext \<Rightarrow> RoutingResult" where
  "route r ctx = route_loop (bindings r) (defaultAgentId r) ctx"

section \<open>Conversation keys\<close>

datatype ConversationMode = Shared | PerChannel | PerChat

text \<open>
  \<^verbatim>\<open>String.prototype.toLowerCase\<close> on the characters a \<open>string\<close> of HOL holds: the
  letters \<open>A\<close> to \<open>Z\<close> go to \<open>a\<close> to \<open>z\<close>, every other character stays.
\<close>

definition lower_char :: "char \<Rightarrow> char" where
  "lower_char c =
     (let n = (of_char c :: nat) in if 65 \<le> n \<and> n \<le> 90 then char_of (n + 32) else c)"

definition toLowerCase :: "string \<Rightarrow> string" where
  "toLowerCase s = map lower_char s"

text \<open>
  Modelled from the spec: \<^verbatim>\<open>resolveConversationKey\<close> of bot.ts, of which the sources hold
  only the tests (src/unnamed/part_001, lines 677-784). Per-chat and per-channel mode give the lowercased channel; shared mode
  gives the lowercased channel if it is in the override set and \<^verbatim>\<open>"shared"\<close> otherwise;
  an undefined mode behaves as shared.
\<close>

definition resolveConversationKey ::
  "string \<Rightarrow> ConversationMode option \<Rightarrow> string set \<Rightarrow> string" where
  "resolveConversationKey channel conversationMode conversationOverrides =
     (let normalized = toLowerCase channel in
      case conversationMode of
        Some PerChat \<Rightarrow> normalized
      | Some PerChannel \<Rightarrow> normalized
      | _ \<Rightarrow> if normalized \<in> conversationOverrides then normalized else ''shared'')"

text \<open>
  Modelled from the spec: \<^verbatim>\<open>resolveHeartbeatConversationKey\<close> of bot.ts, of which the
  sources hold only the tests. In per-channel mode \<^verbatim>\<open>"dedicated"\<close> gives
  \<^verbatim>\<open>"heartbeat"\<close>, \<^verbatim>\<open>"last-active"\<close> gives the last active channel if there is one and
  \<^verbatim>\<open>"shared"\<close> otherwise, and any other value is the key itself. Otherwise the key is
  \<^verbatim>\<open>"shared"\<close>, unless the setting is \<^verbatim>\<open>"last-active"\<close> and the last active channel is
  present with its lowercased form in the override set: then the key is that channel.
  The spec does not say what an undefined setting gives; the configuration type documents
  \<^verbatim>\<open>heartbeatConversation\<close> with \<^verbatim>\<open>default: last-active\<close>, which the model takes. Modes
  other than per-channel take the second rule.
\<close>

definition resolveHeartbeatConversationKey ::
  "ConversationMode option \<Rightarrow> string option \<Rightarrow> string set \<Rightarrow> string option \<Rightarrow> string" where
  "resolveHeartbeatConversationKey conversationMode heartbeatConversation conversationOverrides
       lastActiveChannel =
     (let hb = (case heartbeatConversation of None \<Rightarrow> ''last-active'' | Some v \<Rightarrow> v) in
      if conversationMode = Some PerChannel then
        (if hb = ''dedicated'' then ''heartbeat''
         else if hb = ''last-active'' then
           (case lastActiveChannel of Some c \<Rightarrow> c | None \<Rightarrow> ''shared'')
         else hb)
      else
        (case lastActiveChannel of
           Some c \<Rightarrow>
             if hb = ''last-active'' \<and> toLowerCase c \<in> conversationOverrides then c
             else ''shared''
         | None \<Rightarrow> ''shared''))"

section \<open>Agent instance: data\<close>

text \<open>
  The class \<^verbatim>\<open>AgentInstance\<close> is in src/unnamed/part_001 (lines 259-676); the line numbers
  below are lines of that file.
\<close>

text \<open>
  A thrown value is an \<^verbatim>\<open>Error\<close> object with its message, or any other value, kept as
  its \<^verbatim>\<open>String(...)\<close> form.
\<close>

datatype thrown = Error string | NonError string

text \<open>\<^verbatim>\<open>error instanceof Error ? error.message : 'Unknown error'\<close>\<close>

fun error_text :: "thrown \<Rightarrow> string" where
  "error_text (Error m) = m"
| "error_text (NonError v) = ''Unknown error''"

text \<open>\<^verbatim>\<open>error instanceof Error ? error : new Error(String(error))\<close>\<close>

fun as_Error :: "thrown \<Rightarrow> thrown" where
  "as_Error (Error m) = Error m"
| "as_Error (NonError v) = Error v"

type_synonym ChannelAdapter = string

record InboundMessage =
  msg_channel :: string
  msg_chatId :: string
  msg_userId :: string
  msg_messageId :: "string option"
  msg_text :: string
  msg_threadId :: "string option"

record OutboundMessage =
  out_chatId :: string
  out_text :: string
  out_threadId :: "string option"

record LastMessageTarget =
  t_channel :: string
  t_chatId :: string
  t_messageId :: "string option"
  t_updatedAt :: string

record AgentState =
  agentId :: "string option"
  conversationId :: "string option"
  baseUrl :: "string option"
  createdAt :: "string option"
  lastUsedAt :: "string option"
  lastMessageTarget :: "LastMessageTarget option"

record AgentInstanceConfig =
  configId :: string
  name :: string
  workspace :: string
  model :: "string option"
  allowedTools :: "string list"

text \<open>
  A session object is known by how it was obtained: \<^verbatim>\<open>resumeSession(id, baseOptions)\<close> or
  \<^verbatim>\<open>createSession(id, baseOptions)\<close>.
\<close>

datatype Session = ResumedSession string | CreatedSession string

datatype StreamMsg = Assistant string | Result | OtherMsg

record QueueEntry =
  q_msg :: InboundMessage
  q_adapter :: ChannelAdapter
  q_promise :: nat

text \<open>
  Every call the instance makes on a collaborator (the clock, the state file, the channel
  adapter, the agent SDK and its sessions), and the three things it does to its queue and
  the promises of \<^verbatim>\<open>processMessage\<close>. An event is a call with its outcome: \<open>None\<close> when it
  returned, \<open>Some e\<close> when it threw (or its promise rejected with) \<open>e\<close>. For \<open>Settle\<close>,
  \<open>None\<close> is \<^verbatim>\<open>resolve()\<close> and \<open>Some e\<close> is \<^verbatim>\<open>reject(e)\<close>.
\<close>

datatype call =
    ReadClock
  | WriteStateFile AgentState
  | SendTypingIndicator ChannelAdapter string
  | SendMessage ChannelAdapter OutboundMessage
  | EditMessage ChannelAdapter string string string
  | CreateAgent AgentInstanceConfig
  | ResumeSession string
  | CreateSession string
  | SessionInitialize Session
  | SessionSend Session string
  | SessionStream Session
  | SessionClose Session
  | UpdateAgentName string string
  | Enqueue nat
  | Dequeue nat
  | Settle nat

datatype event = Ev call "thrown option"

text \<open>
  The collaborators. Each answers a call from the history of events so far, so the same
  call may be answered differently at different times. Every awaited call settles; the
  two calls the source runs under \<^verbatim>\<open>withTimeout\<close> come with the milliseconds they take.
  \<^verbatim>\<open>formatMessageEnvelope\<close> (formatter.ts) is a pure function of the message.
\<close>

record env =
  Date_now :: "event list \<Rightarrow> int"
  toISOString :: "event list \<Rightarrow> string"
  LETTA_BASE_URL :: "string option"
  writeFileSync :: "event list \<Rightarrow> AgentState \<Rightarrow> thrown option"
  formatMessageEnvelope :: "InboundMessage \<Rightarrow> string"
  sendTypingIndicator :: "event list \<Rightarrow> ChannelAdapter \<Rightarrow> string \<Rightarrow> thrown option"
  supportsEditing :: "event list \<Rightarrow> ChannelAdapter \<Rightarrow> bool option"
  sendMessage :: "event list \<Rightarrow> ChannelAdapter \<Rightarrow> OutboundMessage \<Rightarrow> thrown + string"
  editMessage :: "event list \<Rightarrow> ChannelAdapter \<Rightarrow> string \<Rightarrow> string \<Rightarrow> string \<Rightarrow> thrown option"
  createAgent :: "event list \<Rightarrow> AgentInstanceConfig \<Rightarrow> thrown + string"
  resumeSession :: "event list \<Rightarrow> string \<Rightarrow> thrown option"
  createSession :: "event list \<Rightarrow> string \<Rightarrow> thrown option"
  session_initialize :: "event list \<Rightarrow> Session \<Rightarrow> nat \<times> thrown option"
  session_send :: "event list \<Rightarrow> Session \<Rightarrow> string \<Rightarrow> nat \<times> thrown option"
  session_stream :: "event list \<Rightarrow> Session \<Rightarrow> StreamMsg list \<times> thrown option"
  session_agentId :: "event list \<Rightarrow> Session \<Rightarrow> string option"
  session_conversationId :: "event list \<Rightarrow> Session \<Rightarrow> string option"
  session_close :: "event list \<Rightarrow> Session \<Rightarrow> thrown option"

text \<open>
  The mutable fields of an \<^verbatim>\<open>AgentInstance\<close> (\<open>state\<close>, \<open>processing\<close>, \<open>messageQueue\<close>),
  the activations of \<^verbatim>\<open>processQueue\<close> suspended at \<^verbatim>\<open>await this.handleMessage(...)\<close>
  (\<open>inFlight\<close>, each with the entry it handles), the content of the state file, the
  process environment variable the instance assigns, and the history of events.
\<close>

record world =
  state :: AgentState
  processing :: bool
  messageQueue :: "QueueEntry list"
  inFlight :: "QueueEntry list"
  disk :: "AgentState option"
  LETTA_AGENT_ID :: "string option"
  trace :: "event list"

definition emit :: "call \<Rightarrow> thrown option \<Rightarrow> world \<Rightarrow> world" where
  "emit c r w = w\<lparr>trace := trace w @ [Ev c r]\<rparr>"

text \<open>\<^verbatim>\<open>{ agentId: null }\<close>\<close>

definition empty_state :: AgentState where
  "empty_state =
     \<lparr>agentId = None, conversationId = None, baseUrl = None, createdAt = None,
      lastUsedAt = None, lastMessageTarget = None\<rparr>"

text \<open>\<^verbatim>\<open>saveState\<close>: a failing write is logged and swallowed; the file keeps its content.\<close>

definition saveState :: "env \<Rightarrow> world \<Rightarrow> world" where
  "saveState env w =
     (case writeFileSync env (trace w) (state w) of
        None \<Rightarrow> (emit (WriteStateFile (state w)) None w)\<lparr>disk := Some (state w)\<rparr>
      | Some e \<Rightarrow> emit (WriteStateFile (state w)) (Some e) w)"

definition reset :: "env \<Rightarrow> world \<Rightarrow> world" where
  "reset env w = saveState env (w\<lparr>state := empty_state\<rparr>)"

definition setAgentId :: "env \<Rightarrow> string \<Rightarrow> world \<Rightarrow> world" where
  "setAgentId env newId w = saveState env (w\<lparr>state := (state w)\<lparr>agentId := Some newId\<rparr>\<rparr>)"

subsection \<open>Timeouts\<close>

text \<open>A number as a template literal prints it: in decimal.\<close>

fun show_nat :: "nat \<Rightarrow> string" where
  "show_nat n =
     (if n < 10 then [''0123456789'' ! n]
      else show_nat (n div 10) @ [''0123456789'' ! (n mod 10)])"

declare show_nat.simps [simp del]

text \<open>
  \<^verbatim>\<open>withTimeout(promise, label, timeoutMs)\<close>: the race of the promise with a timer. A
  promise that settles before the timer gives its own outcome; otherwise the race rejects
  with \<^verbatim>\<open>new Error(`${label} timed out after ${timeoutMs}ms`)\<close>.
\<close>

definition withTimeout :: "nat \<times> thrown option \<Rightarrow> string \<Rightarrow> nat \<Rightarrow> thrown option" where
  "withTimeout promise label timeoutMs =
     (if fst promise < timeoutMs then snd promise
      else Some (Error (label @ '' timed out after '' @ show_nat timeoutMs @ ''ms'')))"

definition initTimeoutMs :: nat where
  "initTimeoutMs = 30000"

section \<open>Agent instance: handleMessage\<close>

text \<open>
  The blocks of \<^verbatim>\<open>handleMessage\<close> in source order. A block returns the outcome of its
  awaits (\<open>Some e\<close> or \<open>Inl e\<close>: it threw \<open>e\<close>) with the world after it. Console logging is
  left out. The interval timer that repeats the typing indicator every 4000 ms while the
  reply streams is fire-and-forget, discards its failures and touches no variable of the
  method; it is not part of the model.
\<close>

text \<open>Lines 442-449: track the last message target and save the state.\<close>

definition trackLastMessageTarget :: "env \<Rightarrow> InboundMessage \<Rightarrow> world \<Rightarrow> world" where
  "trackLastMessageTarget env msg w =
     (let updatedAt = toISOString env (trace w);
          w1 = emit ReadClock None w;
          target = \<lparr>t_channel = msg_channel msg, t_chatId = msg_chatId msg,
                    t_messageId = msg_messageId msg, t_updatedAt = updatedAt\<rparr>
      in saveState env (w1\<lparr>state := (state w1)\<lparr>lastMessageTarget := Some target\<rparr>\<rparr>))"

text \<open>
  Lines 460-481: the session by precedence. The result carries the session and the flags
  \<open>(usedDefaultConversation, usedSpecificConversation)\<close>. Assigning \<^verbatim>\<open>undefined\<close> to a
  property of \<^verbatim>\<open>process.env\<close> stores the string \<^verbatim>\<open>"undefined"\<close>.
\<close>

definition resumeWith ::
  "env \<Rightarrow> string \<Rightarrow> bool \<times> bool \<Rightarrow> world \<Rightarrow> (thrown + Session \<times> bool \<times> bool) \<times> world" where
  "resumeWith env ident flags w =
     (case resumeSession env (trace w) ident of
        None \<Rightarrow> (Inr (ResumedSession ident, flags), emit (ResumeSession ident) None w)
      | Some e \<Rightarrow> (Inl e, emit (ResumeSession ident) (Some e) w))"

definition openSession ::
  "env \<Rightarrow> AgentInstanceConfig \<Rightarrow> world \<Rightarrow> (thrown + Session \<times> bool \<times> bool) \<times> world" where
  "openSession env cfg w =
     (if truthy (conversationId (state w)) then
        resumeWith env (the (conversationId (state w))) (False, True)
          (w\<lparr>LETTA_AGENT_ID :=
               Some (if truthy (agentId (state w)) then the (agentId (state w))
                     else ''undefined'')\<rparr>)
      else if truthy (agentId (state w)) then
        resumeWith env (the (agentId (state w))) (True, False)
          (w\<lparr>LETTA_AGENT_ID := agentId (state w)\<rparr>)
      else
        (case createAgent env (trace w) cfg of
           Inl e \<Rightarrow> (Inl e, emit (CreateAgent cfg) (Some e) w)
         | Inr newAgentId \<Rightarrow>
             resumeWith env newAgentId (False, False) (emit (CreateAgent cfg) None w)))"

text \<open>
  Lines 488-504: initialize under the timeout; on failure, when a specific or the default
  conversation was resumed and an agent identity is stored, close the session, create a
  new one for the stored identity and initialize that once. The session variable is
  returned with the outcome: it is reassigned only after \<^verbatim>\<open>createSession\<close> returned.
\<close>

definition recreateAndInitialize :: "env \<Rightarrow> Session \<Rightarrow> world \<Rightarrow> thrown option \<times> Session \<times> world" where
  "recreateAndInitialize env session w =
     (case session_close env (trace w) session of
        Some e \<Rightarrow> (Some e, session, emit (SessionClose session) (Some e) w)
      | None \<Rightarrow>
          (let w1 = emit (SessionClose session) None w;
               ident = the (agentId (state w1))
           in case createSession env (trace w1) ident of
                Some e \<Rightarrow> (Some e, session, emit (CreateSession ident) (Some e) w1)
              | None \<Rightarrow>
                  (let w2 = emit (CreateSession ident) None w1;
                       session' = CreatedSession ident;
                       r = withTimeout (session_initialize env (trace w2) session')
                             ''Session initialize'' initTimeoutMs
                   in (r, session', emit (SessionInitialize session') r w2))))"

definition initializeSession ::
  "env \<Rightarrow> Session \<Rightarrow> bool \<Rightarrow> bool \<Rightarrow> world \<Rightarrow> thrown option \<times> Session \<times> world" where
  "initializeSession env session usedDefaultConversation usedSpecificConversation w =
     (case withTimeout (session_initialize env (trace w) session)
             ''Session initialize'' initTimeoutMs of
        None \<Rightarrow> (None, session, emit (SessionInitialize session) None w)
      | Some error \<Rightarrow>
          (let w1 = emit (SessionInitialize session) (Some error) w in
           if usedSpecificConversation \<and> truthy (agentId (state w1)) then
             recreateAndInitialize env session w1
           else if usedDefaultConversation \<and> truthy (agentId (state w1)) then
             recreateAndInitialize env session w1
           else (Some error, session, w1)))"

text \<open>Lines 599-622: \<^verbatim>\<open>handleSessionResult\<close>.\<close>

definition handleSessionResult :: "env \<Rightarrow> AgentInstanceConfig \<Rightarrow> Session \<Rightarrow> world \<Rightarrow> world" where
  "handleSessionResult env cfg session w =
     (let sessionAgentId = session_agentId env (trace w) session;
          sessionConversationId = session_conversationId env (trace w) session;
          isNewAgent = (\<not> truthy (agentId (state w)) \<and> truthy sessionAgentId);
          w1 = (if truthy sessionAgentId \<and> sessionAgentId \<noteq> agentId (state w) then
                  (let currentBaseUrl =
                         (if truthy (LETTA_BASE_URL env) then the (LETTA_BASE_URL env)
                          else ''https://api.letta.com'');
                       usedAt = toISOString env (trace w);
                       wa = (emit ReadClock None w)
                              \<lparr>state := (state w)\<lparr>agentId := sessionAgentId,
                                 baseUrl := Some currentBaseUrl, lastUsedAt := Some usedAt\<rparr>\<rparr>
                   in if \<not> truthy (createdAt (state wa)) then
                        (emit ReadClock None wa)
                          \<lparr>state := (state wa)\<lparr>createdAt := Some (toISOString env (trace wa))\<rparr>\<rparr>
                      else wa)
                else w);
          w2 = (if truthy sessionConversationId
                   \<and> sessionConversationId \<noteq> conversationId (state w1)
                then w1\<lparr>state := (state w1)\<lparr>conversationId := sessionConversationId\<rparr>\<rparr>
                else w1);
          w3 = saveState env w2
      in if isNewAgent \<and> truthy sessionAgentId then
           emit (UpdateAgentName (the sessionAgentId) (name cfg)) None w3
         else w3)"

text \<open>Lines 510-555: stream the reply; the local variables of the loop.\<close>

record StreamLocals =
  response :: string
  messageId :: "string option"
  lastUpdate :: int
  sentAnyMessage :: bool

definition streamUpdate ::
  "env \<Rightarrow> ChannelAdapter \<Rightarrow> InboundMessage \<Rightarrow> StreamLocals \<Rightarrow> world \<Rightarrow> StreamLocals \<times> world" where
  "streamUpdate env adapter msg l w =
     (if truthy (messageId l) then
        (case editMessage env (trace w) adapter (msg_chatId msg) (the (messageId l)) (response l) of
           None \<Rightarrow>
             (l\<lparr>sentAnyMessage := True\<rparr>,
              emit (EditMessage adapter (msg_chatId msg) (the (messageId l)) (response l)) None w)
         | Some e \<Rightarrow>
             (l, emit (EditMessage adapter (msg_chatId msg) (the (messageId l)) (response l))
                   (Some e) w))
      else
        (let out = \<lparr>out_chatId = msg_chatId msg, out_text = response l,
                     out_threadId = msg_threadId msg\<rparr>
         in case sendMessage env (trace w) adapter out of
              Inr newId \<Rightarrow>
                (l\<lparr>messageId := Some newId, sentAnyMessage := True\<rparr>,
                 emit (SendMessage adapter out) None w)
            | Inl e \<Rightarrow> (l, emit (SendMessage adapter out) (Some e) w)))"

definition onAssistant ::
  "env \<Rightarrow> ChannelAdapter \<Rightarrow> InboundMessage \<Rightarrow> string \<Rightarrow> StreamLocals \<Rightarrow> world
     \<Rightarrow> StreamLocals \<times> world" where
  "onAssistant env adapter msg content l w =
     (let l1 = l\<lparr>response := response l @ content\<rparr>;
          canEdit = (case supportsEditing env (trace w) adapter of None \<Rightarrow> True | Some b \<Rightarrow> b)
      in if \<not> canEdit then (l1, w)
         else
           (let now = Date_now env (trace w);
                w1 = emit ReadClock None w
            in if now - lastUpdate l1 > 500 \<and> response l1 \<noteq> [] then
                 (case streamUpdate env adapter msg l1 w1 of
                    (l2, w2) \<Rightarrow>
                      (l2\<lparr>lastUpdate := Date_now env (trace w2)\<rparr>, emit ReadClock None w2))
               else (l1, w1)))"

fun streamLoop ::
  "env \<Rightarrow> AgentInstanceConfig \<Rightarrow> ChannelAdapter \<Rightarrow> InboundMessage \<Rightarrow> Session
     \<Rightarrow> StreamMsg list \<Rightarrow> thrown option \<Rightarrow> StreamLocals \<Rightarrow> world
     \<Rightarrow> thrown option \<times> StreamLocals \<times> world" where
  "streamLoop env cfg adapter msg session [] failure l w = (failure, l, w)"
| "streamLoop env cfg adapter msg session (Assistant content # rest) failure l w =
     (case onAssistant env adapter msg content l w of
        (l1, w1) \<Rightarrow> streamLoop env cfg adapter msg session rest failure l1 w1)"
| "streamLoop env cfg adapter msg session (Result # rest) failure l w =
     (None, l, handleSessionResult env cfg session w)"
| "streamLoop env cfg adapter msg session (OtherMsg # rest) failure l w =
     streamLoop env cfg adapter msg session rest failure l w"

definition streamResponse ::
  "env \<Rightarrow> AgentInstanceConfig \<Rightarrow> ChannelAdapter \<Rightarrow> InboundMessage \<Rightarrow> Session \<Rightarrow> world
     \<Rightarrow> thrown option \<times> StreamLocals \<times> world" where
  "streamResponse env cfg adapter msg session w =
     (let l = \<lparr>response = [], messageId = None, lastUpdate = Date_now env (trace w),
                sentAnyMessage = False\<rparr>;
          w1 = emit ReadClock None w;
          streamed = session_stream env (trace w1) session
      in streamLoop env cfg adapter msg session (fst streamed) (snd streamed) l
           (emit (SessionStream session) None w1))"

text \<open>
  Lines 557-581: the final response. \<^verbatim>\<open>response.trim()\<close> is truthy when the response
  holds a character that is not white space (tab, line feed, vertical tab, form feed,
  carriage return, space).
\<close>

definition is_space :: "char \<Rightarrow> bool" where
  "is_space c = (let n = (of_char c :: nat) in (9 \<le> n \<and> n \<le> 13) \<or> n = 32)"

definition trim_truthy :: "string \<Rightarrow> bool" where
  "trim_truthy s = (\<not> list_all is_space s)"

definition sendFinalResponse ::
  "env \<Rightarrow> ChannelAdapter \<Rightarrow> InboundMessage \<Rightarrow> StreamLocals \<Rightarrow> world \<Rightarrow> thrown option \<times> world" where
  "sendFinalResponse env adapter msg l w =
     (if \<not> trim_truthy (response l) then (None, w)
      else if truthy (messageId l) then
        (None,
         emit (EditMessage adapter (msg_chatId msg) (the (messageId l)) (response l))
           (editMessage env (trace w) adapter (msg_chatId msg) (the (messageId l)) (response l)) w)
      else
        (let out = \<lparr>out_chatId = msg_chatId msg, out_text = response l,
                     out_threadId = msg_threadId msg\<rparr>
         in case sendMessage env (trace w) adapter out of
              Inr _ \<Rightarrow> (None, emit (SendMessage adapter out) None w)
            | Inl sendError \<Rightarrow>
                (let w1 = emit (SendMessage adapter out) (Some sendError) w
                 in case sendMessage env (trace w1) adapter out of
                      Inr _ \<Rightarrow> (None, emit (SendMessage adapter out) None w1)
                    | Inl e \<Rightarrow> (Some e, emit (SendMessage adapter out) (Some e) w1))))"

text \<open>Lines 483-582: the body of the outer \<^verbatim>\<open>try\<close>.\<close>

definition guarded ::
  "env \<Rightarrow> AgentInstanceConfig \<Rightarrow> ChannelAdapter \<Rightarrow> InboundMessage \<Rightarrow> Session \<Rightarrow> bool \<Rightarrow> bool
     \<Rightarrow> world \<Rightarrow> thrown option \<times> Session \<times> world" where
  "guarded env cfg adapter msg session usedDefaultConversation usedSpecificConversation w =
     (case initializeSession env session usedDefaultConversation usedSpecificConversation w of
        (Some e, session1, w1) \<Rightarrow> (Some e, session1, w1)
      | (None, session1, w1) \<Rightarrow>
          (let formattedMessage = formatMessageEnvelope env msg;
               sent = withTimeout (session_send env (trace w1) session1 formattedMessage)
                        ''Session send'' initTimeoutMs;
               w2 = emit (SessionSend session1 formattedMessage) sent w1
           in case sent of
                Some e \<Rightarrow> (Some e, session1, w2)
              | None \<Rightarrow>
                  (case streamResponse env cfg adapter msg session1 w2 of
                     (Some e, l, w3) \<Rightarrow> (Some e, session1, w3)
                   | (None, l, w3) \<Rightarrow>
                       (case sendFinalResponse env adapter msg l w3 of
                          (r, w4) \<Rightarrow> (r, session1, w4)))))"

text \<open>
  Lines 584-593: the \<^verbatim>\<open>catch\<close> of the outer \<^verbatim>\<open>try\<close> sends the error text to the adapter
  and does not rethrow; the \<^verbatim>\<open>finally\<close> closes the session. An error of the \<^verbatim>\<open>finally\<close>
  replaces one of the \<^verbatim>\<open>catch\<close>.
\<close>

definition errorReport :: "InboundMessage \<Rightarrow> thrown \<Rightarrow> OutboundMessage" where
  "errorReport msg error =
     \<lparr>out_chatId = msg_chatId msg, out_text = ''Error: '' @ error_text error,
      out_threadId = msg_threadId msg\<rparr>"

definition catchAndFinally ::
  "env \<Rightarrow> ChannelAdapter \<Rightarrow> InboundMessage \<Rightarrow> thrown option \<Rightarrow> Session \<Rightarrow> world
     \<Rightarrow> (thrown + unit) \<times> world" where
  "catchAndFinally env adapter msg r session w =
     (let caught =
            (case r of
               None \<Rightarrow> (None, w)
             | Some error \<Rightarrow>
                 (case sendMessage env (trace w) adapter (errorReport msg error) of
                    Inr _ \<Rightarrow> (None, emit (SendMessage adapter (errorReport msg error)) None w)
                  | Inl e \<Rightarrow>
                      (Some e, emit (SendMessage adapter (errorReport msg error)) (Some e) w)));
          closed = session_close env (trace (snd caught)) session;
          w2 = emit (SessionClose session) closed (snd caught)
      in ((case closed of
             Some e \<Rightarrow> Inl e
           | None \<Rightarrow> (case fst caught of Some e \<Rightarrow> Inl e | None \<Rightarrow> Inr ())),
          w2))"

definition handleMessage ::
  "env \<Rightarrow> AgentInstanceConfig \<Rightarrow> InboundMessage \<Rightarrow> ChannelAdapter \<Rightarrow> world
     \<Rightarrow> (thrown + unit) \<times> world" where
  "handleMessage env cfg msg adapter w =
     (let w1 = trackLastMessageTarget env msg w;
          typing = sendTypingIndicator env (trace w1) adapter (msg_chatId msg);
          w2 = emit (SendTypingIndicator adapter (msg_chatId msg)) typing w1
      in case typing of
           Some e \<Rightarrow> (Inl e, w2)
         | None \<Rightarrow>
             (case openSession env cfg w2 of
                (Inl e, w3) \<Rightarrow> (Inl e, w3)
              | (Inr (session, usedDefaultConversation, usedSpecificConversation), w3) \<Rightarrow>
                  (case guarded env cfg adapter msg session usedDefaultConversation
                          usedSpecificConversation w3 of
                     (r, session1, w4) \<Rightarrow> catchAndFinally env adapter msg r session1 w4)))"

section \<open>Agent instance: sendToAgent\<close>






section \<open>Agent instance: the message queue\<close>

text \<open>
  \<^verbatim>\<open>processQueue\<close> is an asynchronous loop: it runs until it awaits
  \<^verbatim>\<open>handleMessage\<close>, and goes on when that settles. \<open>whileHead\<close> is the loop from its test
  to the await: it takes the first entry off the queue and calls \<^verbatim>\<open>handleMessage\<close> for it
  (the activation is then suspended: the entry is in \<open>inFlight\<close>), or it leaves the loop
  and clears \<open>processing\<close>.
\<close>

fun enqueued :: "event list \<Rightarrow> nat list" where
  "enqueued [] = []"
| "enqueued (Ev (Enqueue p) r # es) = p # enqueued es"
| "enqueued (ev # es) = enqueued es"

fun dequeued :: "event list \<Rightarrow> nat list" where
  "dequeued [] = []"
| "dequeued (Ev (Dequeue p) r # es) = p # dequeued es"
| "dequeued (ev # es) = dequeued es"

definition whileHead :: "world \<Rightarrow> world" where
  "whileHead w =
     (case messageQueue w of
        [] \<Rightarrow> w\<lparr>processing := False\<rparr>
      | entry # rest \<Rightarrow>
          emit (Dequeue (q_promise entry)) None
            (w\<lparr>messageQueue := rest, inFlight := inFlight w @ [entry]\<rparr>))"

definition processQueue :: "world \<Rightarrow> world" where
  "processQueue w =
     (if processing w \<or> messageQueue w = [] then w else whileHead (w\<lparr>processing := True\<rparr>))"

text \<open>
  \<^verbatim>\<open>processMessage\<close>: the executor of the new promise. The promise is numbered by the
  calls of \<^verbatim>\<open>processMessage\<close> so far.
\<close>

definition processMessage :: "InboundMessage \<Rightarrow> ChannelAdapter \<Rightarrow> world \<Rightarrow> world" where
  "processMessage msg adapter w =
     (let p = length (enqueued (trace w));
          w1 = emit (Enqueue p) None
                 (w\<lparr>messageQueue :=
                      messageQueue w @ [\<lparr>q_msg = msg, q_adapter = adapter, q_promise = p\<rparr>]\<rparr>)
      in if \<not> processing w1 then processQueue w1 else w1)"

text \<open>
  The activation that awaits \<^verbatim>\<open>handleMessage\<close> for \<open>entry\<close> goes on: the promise of the
  entry is resolved or rejected, and the loop takes its next turn. The collaborator calls
  of \<^verbatim>\<open>handleMessage\<close> are placed at this moment. Calls of \<^verbatim>\<open>processMessage\<close> that arrive
  while it runs only touch the queue, which \<^verbatim>\<open>handleMessage\<close> does not read, so they are
  placed before it.
\<close>

definition continueQueue :: "env \<Rightarrow> AgentInstanceConfig \<Rightarrow> QueueEntry \<Rightarrow> world \<Rightarrow> world" where
  "continueQueue env cfg entry w =
     (case handleMessage env cfg (q_msg entry) (q_adapter entry) w of
        (r, w1) \<Rightarrow>
          (let w2 = emit (Settle (q_promise entry))
                      (case r of Inr _ \<Rightarrow> None | Inl error \<Rightarrow> Some (as_Error error)) w1
           in whileHead (w2\<lparr>inFlight := remove1 entry (inFlight w2)\<rparr>)))"

text \<open>
  The worlds an instance reaches from a fresh one by calls of \<^verbatim>\<open>processMessage\<close> and by
  suspended activations going on, in any order.
\<close>

inductive reachable :: "env \<Rightarrow> AgentInstanceConfig \<Rightarrow> world \<Rightarrow> bool"
  for env :: env and cfg :: AgentInstanceConfig where
  fresh:
    "reachable env cfg
       \<lparr>state = st, processing = False, messageQueue = [], inFlight = [], disk = d,
        LETTA_AGENT_ID = v, trace = []\<rparr>"
| submit:
    "reachable env cfg w \<Longrightarrow> reachable env cfg (processMessage msg adapter w)"
| settle:
    "reachable env cfg w \<Longrightarrow> entry \<in> set (inFlight w)
       \<Longrightarrow> reachable env cfg (continueQueue env cfg entry w)"

text \<open>
  The history read as a schedule. \<open>scan\<close> keeps the promise whose message is being
  handled; it fails (\<open>None\<close>) when a message is taken off the queue while another is
  being handled, when a promise is settled whose message is not the one being handled,
  or when a collaborator is called while no message is being handled.
\<close>

fun scan :: "nat option option \<Rightarrow> event \<Rightarrow> nat option option" where
  "scan None ev = None"
| "scan (Some cur) (Ev (Enqueue p) r) = Some cur"
| "scan (Some cur) (Ev (Dequeue p) r) = (if cur = None then Some (Some p) else None)"
| "scan (Some cur) (Ev (Settle p) r) = (if cur = Some p then Some None else None)"
| "scan (Some cur) (Ev c r) = (if cur = None then None else Some cur)"

definition serial :: "event list \<Rightarrow> bool" where
  "serial es = (foldl scan (Some None) es \<noteq> None)"

section \<open>Reading a history\<close>

text \<open>The collaborator (or the queue) an event belongs to.\<close>

datatype kind = KClock | KDisk | KAdapter | KEstablish | KSession | KNaming | KQueue

fun kind_of :: "event \<Rightarrow> kind" where
  "kind_of (Ev ReadClock r) = KClock"
| "kind_of (Ev (WriteStateFile st) r) = KDisk"
| "kind_of (Ev (SendTypingIndicator a c) r) = KAdapter"
| "kind_of (Ev (SendMessage a out) r) = KAdapter"
| "kind_of (Ev (EditMessage a c m t) r) = KAdapter"
| "kind_of (Ev (CreateAgent cfg) r) = KEstablish"
| "kind_of (Ev (ResumeSession i) r) = KEstablish"
| "kind_of (Ev (CreateSession i) r) = KEstablish"
| "kind_of (Ev (SessionInitialize s) r) = KSession"
| "kind_of (Ev (SessionSend s t) r) = KSession"
| "kind_of (Ev (SessionStream s) r) = KSession"
| "kind_of (Ev (SessionClose s) r) = KSession"
| "kind_of (Ev (UpdateAgentName i n) r) = KNaming"
| "kind_of (Ev (Enqueue p) r) = KQueue"
| "kind_of (Ev (Dequeue p) r) = KQueue"
| "kind_of (Ev (Settle p) r) = KQueue"

text \<open>The state file holds the last message target the instance has in memory.\<close>

definition saved_target :: "world \<Rightarrow> bool" where
  "saved_target w =
     (case disk w of
        None \<Rightarrow> False
      | Some d \<Rightarrow> lastMessageTarget d = lastMessageTarget (state w))"

text \<open>
  \<open>ext K w w'\<close>: from \<open>w\<close> to \<open>w'\<close> the history grew by events of the kinds \<open>K\<close>, the
  queue fields did not change, the last message target in memory did not change, and it
  stayed in the state file if it was there.
\<close>

definition ext :: "kind set \<Rightarrow> world \<Rightarrow> world \<Rightarrow> bool" where
  "ext K w w' =
     ((\<exists>evs. trace w' = trace w @ evs \<and> list_all (\<lambda>ev. kind_of ev \<in> K) evs)
      \<and> processing w' = processing w \<and> messageQueue w' = messageQueue w
      \<and> inFlight w' = inFlight w
      \<and> lastMessageTarget (state w') = lastMessageTarget (state w)
      \<and> (saved_target w \<longrightarrow> saved_target w'))"

text \<open>The collaborators of an instance: every kind of event but those of its own queue.\<close>

definition collaborators :: "kind set" where
  "collaborators = {KClock, KDisk, KAdapter, KEstablish, KSession, KNaming}"

text \<open>
  The last message target of a message handled in the world \<open>w\<close>: its channel, chat and
  message id, stamped with the time read at the start of the handling.
\<close>

definition targetOf :: "env \<Rightarrow> InboundMessage \<Rightarrow> world \<Rightarrow> LastMessageTarget" where
  "targetOf env msg w =
     \<lparr>t_channel = msg_channel msg, t_chatId = msg_chatId msg,
      t_messageId = msg_messageId msg, t_updatedAt = toISOString env (trace w)\<rparr>"


text \<open>
  The recovery policy as the spec words it, for any operation on a session: on failure,
  if a specific or the default conversation was being resumed and an agent identity is
  stored, discard the session, create a new session for the stored identity, and retry
  the operation once; otherwise the failure stands.
\<close>

definition recoverByRecreate ::
  "(Session \<Rightarrow> world \<Rightarrow> thrown option \<times> world) \<Rightarrow> env \<Rightarrow> Session \<Rightarrow> bool \<Rightarrow> bool \<Rightarrow> world
     \<Rightarrow> thrown option \<times> Session \<times> world" where
  "recoverByRecreate operation env session usedDefaultConversation usedSpecificConversation w =
     (case operation session w of
        (None, w1) \<Rightarrow> (None, session, w1)
      | (Some error, w1) \<Rightarrow>
          if (usedSpecificConversation \<or> usedDefaultConversation) \<and> truthy (agentId (state w1))
          then
            (case session_close env (trace w1) session of
               Some e \<Rightarrow> (Some e, session, emit (SessionClose session) (Some e) w1)
             | None \<Rightarrow>
                 (case createSession env (trace (emit (SessionClose session) None w1))
                         (the (agentId (state w1))) of
                    Some e \<Rightarrow>
                      (Some e, session,
                       emit (CreateSession (the (agentId (state w1)))) (Some e)
                         (emit (SessionClose session) None w1))
                  | None \<Rightarrow>
                      (case operation (CreatedSession (the (agentId (state w1))))
                              (emit (CreateSession (the (agentId (state w1)))) None
                                 (emit (SessionClose session) None w1)) of
                         (r, w2) \<Rightarrow> (r, CreatedSession (the (agentId (state w1))), w2))))
          else (Some error, session, w1))"

definition initializeOperation :: "env \<Rightarrow> Session \<Rightarrow> world \<Rightarrow> thrown option \<times> world" where
  "initializeOperation env session w =
     (let r = withTimeout (session_initialize env (trace w) session)
                ''Session initialize'' initTimeoutMs
      in (r, emit (SessionInitialize session) r w))"


text \<open>
  What the \<^verbatim>\<open>catch\<close> and the \<^verbatim>\<open>finally\<close> of \<^verbatim>\<open>handleMessage\<close> do after an error in the
  \<^verbatim>\<open>try\<close>, written out: the error text is sent to the adapter, then the session is closed.
\<close>

definition reportAndClose ::
  "env \<Rightarrow> ChannelAdapter \<Rightarrow> InboundMessage \<Rightarrow> thrown \<Rightarrow> Session \<Rightarrow> world
     \<Rightarrow> (thrown + unit) \<times> world" where
  "reportAndClose env adapter msg error session w =
     (let reported =
            (case sendMessage env (trace w) adapter (errorReport msg error) of
               Inr _ \<Rightarrow> None
             | Inl e \<Rightarrow> Some e);
          w1 = emit (SendMessage adapter (errorReport msg error)) reported w;
          closed = session_close env (trace w1) session
      in ((case closed of
             Some e \<Rightarrow> Inl e
           | None \<Rightarrow> (case reported of Some e \<Rightarrow> Inl e | None \<Rightarrow> Inr ())),
          emit (SessionClose session) closed w1))"

text \<open>
  What holds in every world the instance reaches. The history is a schedule in which the
  message being handled is the one in flight; at most one activation of \<^verbatim>\<open>processQueue\<close> is
  suspended, and \<open>processing\<close> says whether one is; the promises are numbered in the order
  of the calls of \<^verbatim>\<open>processMessage\<close>, and the messages taken off the queue, followed by
  those still waiting, are the messages submitted, in order.
\<close>

definition queue_invariant :: "world \<Rightarrow> bool" where
  "queue_invariant w =
     (foldl scan (Some None) (trace w)
        = Some (case inFlight w of [] \<Rightarrow> None | entry # rest \<Rightarrow> Some (q_promise entry))
      \<and> length (inFlight w) \<le> 1
      \<and> processing w = (inFlight w \<noteq> [])
      \<and> (messageQueue w = [] \<or> inFlight w \<noteq> [])
      \<and> enqueued (trace w) = [0..<length (enqueued (trace w))]
      \<and> dequeued (trace w) @ map q_promise (messageQueue w) = enqueued (trace w))"


section \<open>Example collaborators\<close>

text \<open>
  A collaborator set for which every call succeeds: a new agent \<^verbatim>\<open>agent-1\<close>, sessions
  that answer at once and stream \<^verbatim>\<open>hel\<close>, \<^verbatim>\<open>lo\<close> and the result, an adapter without
  message editing.
\<close>

definition calm :: env where
  "calm =
     \<lparr>Date_now = (\<lambda>h. 1000 * int (length h)),
      toISOString = (\<lambda>h. ''T'' @ show_nat (length h)),
      LETTA_BASE_URL = None,
      writeFileSync = (\<lambda>h st. None),
      formatMessageEnvelope = msg_text,
      sendTypingIndicator = (\<lambda>h a c. None),
      supportsEditing = (\<lambda>h a. Some False),
      sendMessage = (\<lambda>h a out. Inr ''m1''),
      editMessage = (\<lambda>h a c m t. None),
      createAgent = (\<lambda>h cfg. Inr ''agent-1''),
      resumeSession = (\<lambda>h i. None),
      createSession = (\<lambda>h i. None),
      session_initialize = (\<lambda>h s. (10, None)),
      session_send = (\<lambda>h s t. (10, None)),
      session_stream = (\<lambda>h s. ([Assistant ''hel'', OtherMsg, Assistant ''lo'', Result], None)),
      session_agentId = (\<lambda>h s. Some ''agent-1''),
      session_conversationId = (\<lambda>h s. Some ''conv-1''),
      session_close = (\<lambda>h s. None)\<rparr>"

text \<open>The same, with every \<^verbatim>\<open>session.initialize()\<close> rejecting with \<^verbatim>\<open>new Error("boom")\<close>.\<close>

definition init_fails :: env where
  "init_fails = calm\<lparr>session_initialize := (\<lambda>h s. (10, Some (Error ''boom'')))\<rparr>"

text \<open>The same as \<open>calm\<close>, with every \<^verbatim>\<open>session.send()\<close> rejecting with \<^verbatim>\<open>new Error("gone")\<close>.\<close>

definition send_fails :: env where
  "send_fails = calm\<lparr>session_send := (\<lambda>h s t. (10, Some (Error ''gone'')))\<rparr>"


definition home :: AgentInstanceConfig where
  "home =
     \<lparr>configId = ''home'', name = ''Home'', workspace = ''/w'', model = None,
      allowedTools = []\<rparr>"

definition hello :: InboundMessage where
  "hello =
     \<lparr>msg_channel = ''telegram'', msg_chatId = ''c1'', msg_userId = ''u1'',
      msg_messageId = Some ''42'', msg_text = ''hello'', msg_threadId = None\<rparr>"

definition fresh_world :: world where
  "fresh_world =
     \<lparr>state = empty_state, processing = False, messageQueue = [], inFlight = [],
      disk = None, LETTA_AGENT_ID = None, trace = []\<rparr>"

text \<open>An instance that has stored the agent \<^verbatim>\<open>a0\<close> and the conversation \<^verbatim>\<open>c0\<close>.\<close>

definition known_world :: world where
  "known_world =
     fresh_world\<lparr>state := empty_state\<lparr>agentId := Some ''a0'', conversationId := Some ''c0''\<rparr>\<rparr>"

text \<open>
  Bindings for telegram: a channel-only binding declared first, and a binding for the
  direct chat \<^verbatim>\<open>123\<close> declared second.
\<close>

definition channel_binding :: AgentBinding where
  "channel_binding =
     \<lparr>b_agentId = ''general'',
      b_match = \<lparr>m_channel = ''telegram'', m_accountId = None, m_peer = None\<rparr>\<rparr>"

definition peer_binding :: AgentBinding where
  "peer_binding =
     \<lparr>b_agentId = ''work'',
      b_match = \<lparr>m_channel = ''telegram'', m_accountId = None,
                 m_peer = Some \<lparr>peer_kind = Dm, peer_id = ''123''\<rparr>\<rparr>\<rparr>"

definition dm_123 :: RoutingContext where
  "dm_123 =
     \<lparr>ctx_channel = ''telegram'', ctx_accountId = None, ctx_peerId = Some ''123'',
      ctx_peerKind = Some Dm\<rparr>"

definition on_slack :: RoutingContext where
  "on_slack =
     \<lparr>ctx_channel = ''slack'', ctx_accountId = None, ctx_peerId = Some ''U1'',
      ctx_peerKind = Some Dm\<rparr>"

section \<open>Router: properties\<close>

lemma route_loop_find:
  "route_loop bs d ctx =
     (case find (\<lambda>b. getMatchLevel b ctx \<noteq> None) bs of
        None \<Rightarrow> \<lparr>r_agentId = d, r_matchedBinding = None, r_matchLevel = Default\<rparr>
      | Some b \<Rightarrow> \<lparr>r_agentId = b_agentId b, r_matchedBinding = Some b,
                  r_matchLevel = the (getMatchLevel b ctx)\<rparr>)"
  by (induction bs) (auto split: option.splits)

lemma find_first_max:
  "sorted_wrt (\<lambda>a b. f b \<le> (f a :: int)) xs \<Longrightarrow> find P xs = Some x \<Longrightarrow> y \<in> set xs \<Longrightarrow> P y
     \<Longrightarrow> f y \<le> f x"
  by (induction xs) (auto split: if_splits)

lemma find_Some_in: "find P xs = Some x \<Longrightarrow> x \<in> set xs \<and> P x"
  by (induction xs) (auto split: if_splits)

lemma find_None_all: "find P xs = None \<Longrightarrow> y \<in> set xs \<Longrightarrow> \<not> P y"
  by (induction xs) (auto split: if_splits)

lemma find_same_key:
  "find P xs = Some x \<Longrightarrow> find (\<lambda>b. P b \<and> f b = f x) xs = Some x"
  by (induction xs) (auto split: if_splits)

lemma find_filter_conv: "find (\<lambda>b. P b \<and> Q b) xs = find P (filter Q xs)"
  by (induction xs) auto

lemma sortBySpecificity_sorted:
  "sorted_wrt (\<lambda>a b. getSpecificityScore b \<le> getSpecificityScore a) (sortBySpecificity bs)"
proof -
  have "sorted (map (\<lambda>b. - getSpecificityScore b) (sortBySpecificity bs))"
    unfolding sortBySpecificity_def by (rule sorted_sort_key)
  then show ?thesis
    by (simp add: sorted_map sorted_wrt_iff_nth_less)
qed

lemma sortBySpecificity_stable:
  "filter (\<lambda>b. getSpecificityScore b = k) (sortBySpecificity bs)
     = filter (\<lambda>b. getSpecificityScore b = k) bs"
proof -
  have "filter (\<lambda>b. - getSpecificityScore b = - k) (sort_key (\<lambda>b. - getSpecificityScore b) bs)
          = filter (\<lambda>b. - getSpecificityScore b = - k) bs"
    by (rule sort_key_stable)
  then show ?thesis by (simp add: sortBySpecificity_def)
qed

lemma set_sortBySpecificity: "set (sortBySpecificity bs) = set bs"
  by (simp add: sortBySpecificity_def)

lemma score_values:
  "getSpecificityScore b =
     (if m_peer (b_match b) \<noteq> None then 100 else 0)
     + (if truthy (m_accountId (b_match b)) then 10 else 0) + 1"
  by (simp add: getSpecificityScore_def)

lemma level_of_match:
  "getMatchLevel b ctx = Some l \<Longrightarrow>
     l = (if m_peer (b_match b) \<noteq> None then Peer
          else if truthy (m_accountId (b_match b)) then Account else Channel)"
  by (auto simp: getMatchLevel_def split: if_splits option.splits)

text \<open>
  The binding that routes a context: it matches, no matching binding scores higher, and
  it is the first in declaration order among the matching bindings of its score.
\<close>

lemma route_winner:
  assumes p: "p \<in> set bs" "getMatchLevel p ctx \<noteq> None"
  shows "\<exists>win. r_matchedBinding (route (createRouter bs d) ctx) = Some win
           \<and> r_agentId (route (createRouter bs d) ctx) = b_agentId win
           \<and> Some (r_matchLevel (route (createRouter bs d) ctx)) = getMatchLevel win ctx
           \<and> win \<in> set bs
           \<and> getSpecificityScore p \<le> getSpecificityScore win
           \<and> find (\<lambda>b. getMatchLevel b ctx \<noteq> None
                        \<and> getSpecificityScore b = getSpecificityScore win) bs = Some win"
proof -
  let ?P = "\<lambda>b. getMatchLevel b ctx \<noteq> None"
  let ?sorted = "sortBySpecificity bs"
  have "p \<in> set ?sorted" using p(1) by (simp add: set_sortBySpecificity)
  then obtain win where win: "find ?P ?sorted = Some win"
    using p(2) find_None_all [of ?P ?sorted p] by (cases "find ?P ?sorted") auto
  have in_bs: "win \<in> set bs" and matches: "?P win"
    using find_Some_in [OF win] by (simp_all add: set_sortBySpecificity)
  have best: "getSpecificityScore p \<le> getSpecificityScore win"
    using find_first_max [OF sortBySpecificity_sorted win] p
    by (simp add: set_sortBySpecificity)
  have "find (\<lambda>b. ?P b \<and> getSpecificityScore b = getSpecificityScore win) ?sorted = Some win"
    using find_same_key [OF win] by simp
  then have first: "find (\<lambda>b. ?P b \<and> getSpecificityScore b = getSpecificityScore win) bs
                      = Some win"
    by (simp add: find_filter_conv sortBySpecificity_stable)
  have "route (createRouter bs d) ctx =
          \<lparr>r_agentId = b_agentId win, r_matchedBinding = Some win,
           r_matchLevel = the (getMatchLevel win ctx)\<rparr>"
    by (simp add: route_def createRouter_def route_loop_find win del: not_None_eq)
  with in_bs matches best first show ?thesis by auto
qed

lemma peer_scores_higher:
  "m_peer (b_match p) \<noteq> None \<Longrightarrow> getSpecificityScore p \<le> getSpecificityScore b
     \<Longrightarrow> m_peer (b_match b) \<noteq> None"
  by (simp add: score_values split: if_splits)

text \<open>
  C4. The router keeps its bindings in descending order of the specificity score (100 for
  a peer pattern, 10 for a non-empty account id, 1 for every binding), bindings of equal
  score in declaration order; \<open>route\<close> returns the first binding of that order with a match
  level and never a later one. So when a binding with a peer pattern matches the
  context, the context is routed by a binding with a peer pattern, at level \<open>Peer\<close>,
  wherever a channel-only binding for the channel was declared: the routing binding
  matches, no matching binding scores higher than it, and it is the first declared among
  the matching bindings of its score.
\<close>

theorem route_by_specificity:
  "getSpecificityScore b =
       (if m_peer (b_match b) \<noteq> None then 100 else 0)
       + (if truthy (m_accountId (b_match b)) then 10 else 0) + 1
   \<and> sorted_wrt (\<lambda>a b. getSpecificityScore b \<le> getSpecificityScore a)
        (bindings (createRouter bs d))
   \<and> (\<forall>k. filter (\<lambda>b. getSpecificityScore b = k) (bindings (createRouter bs d))
            = filter (\<lambda>b. getSpecificityScore b = k) bs)
   \<and> route (createRouter bs d) ctx =
        (case find (\<lambda>b. getMatchLevel b ctx \<noteq> None) (bindings (createRouter bs d)) of
           None \<Rightarrow> \<lparr>r_agentId = d, r_matchedBinding = None, r_matchLevel = Default\<rparr>
         | Some b \<Rightarrow> \<lparr>r_agentId = b_agentId b, r_matchedBinding = Some b,
                     r_matchLevel = the (getMatchLevel b ctx)\<rparr>)
   \<and> (\<forall>p \<in> set bs. m_peer (b_match p) \<noteq> None \<and> getMatchLevel p ctx \<noteq> None \<longrightarrow>
         (\<exists>win. r_matchedBinding (route (createRouter bs d) ctx) = Some win
            \<and> r_agentId (route (createRouter bs d) ctx) = b_agentId win
            \<and> r_matchLevel (route (createRouter bs d) ctx) = Peer
            \<and> win \<in> set bs \<and> m_peer (b_match win) \<noteq> None
            \<and> getMatchLevel win ctx = Some Peer
            \<and> getSpecificityScore p \<le> getSpecificityScore win
            \<and> find (\<lambda>b. getMatchLevel b ctx \<noteq> None
                         \<and> getSpecificityScore b = getSpecificityScore win) bs = Some win))"
proof (intro conjI allI ballI impI)
  show "getSpecificityScore b =
          (if m_peer (b_match b) \<noteq> None then 100 else 0)
          + (if truthy (m_accountId (b_match b)) then 10 else 0) + 1"
    by (rule score_values)
next
  show "sorted_wrt (\<lambda>a b. getSpecificityScore b \<le> getSpecificityScore a)
          (bindings (createRouter bs d))"
    by (simp add: createRouter_def sortBySpecificity_sorted)
next
  fix k
  show "filter (\<lambda>b. getSpecificityScore b = k) (bindings (createRouter bs d))
          = filter (\<lambda>b. getSpecificityScore b = k) bs"
    by (simp add: createRouter_def sortBySpecificity_stable)
next
  show "route (createRouter bs d) ctx =
          (case find (\<lambda>b. getMatchLevel b ctx \<noteq> None) (bindings (createRouter bs d)) of
             None \<Rightarrow> \<lparr>r_agentId = d, r_matchedBinding = None, r_matchLevel = Default\<rparr>
           | Some b \<Rightarrow> \<lparr>r_agentId = b_agentId b, r_matchedBinding = Some b,
                       r_matchLevel = the (getMatchLevel b ctx)\<rparr>)"
    by (simp add: route_def createRouter_def route_loop_find)
next
  fix p
  assume p: "p \<in> set bs" "m_peer (b_match p) \<noteq> None \<and> getMatchLevel p ctx \<noteq> None"
  from route_winner [of p bs ctx d] p obtain win where
    win: "r_matchedBinding (route (createRouter bs d) ctx) = Some win"
      "r_agentId (route (createRouter bs d) ctx) = b_agentId win"
      "Some (r_matchLevel (route (createRouter bs d) ctx)) = getMatchLevel win ctx"
      "win \<in> set bs"
      "getSpecificityScore p \<le> getSpecificityScore win"
      "find (\<lambda>b. getMatchLevel b ctx \<noteq> None
                  \<and> getSpecificityScore b = getSpecificityScore win) bs = Some win"
    by blast
  have peer: "m_peer (b_match win) \<noteq> None"
    using peer_scores_higher [OF _ win(5)] p(2) by simp
  have level: "getMatchLevel win ctx = Some Peer"
    using level_of_match [of win ctx "r_matchLevel (route (createRouter bs d) ctx)"] win(3) peer
    by simp
  show "\<exists>win. r_matchedBinding (route (createRouter bs d) ctx) = Some win
            \<and> r_agentId (route (createRouter bs d) ctx) = b_agentId win
            \<and> r_matchLevel (route (createRouter bs d) ctx) = Peer
            \<and> win \<in> set bs \<and> m_peer (b_match win) \<noteq> None
            \<and> getMatchLevel win ctx = Some Peer
            \<and> getSpecificityScore p \<le> getSpecificityScore win
            \<and> find (\<lambda>b. getMatchLevel b ctx \<noteq> None
                         \<and> getSpecificityScore b = getSpecificityScore win) bs = Some win"
    using win level peer by (intro exI [of _ win]) simp
qed

text \<open>
  The theorem at the bindings \<open>[channel_binding, peer_binding]\<close> and the direct chat
  \<^verbatim>\<open>123\<close>: the peer binding, declared second, routes the message.
\<close>

theorem route_by_specificity_witness:
  "peer_binding \<in> set [channel_binding, peer_binding]
   \<and> m_peer (b_match peer_binding) \<noteq> None
   \<and> getMatchLevel peer_binding dm_123 = Some Peer
   \<and> r_matchedBinding (route (createRouter [channel_binding, peer_binding] ''main'') dm_123)
       = Some peer_binding
   \<and> r_agentId (route (createRouter [channel_binding, peer_binding] ''main'') dm_123) = ''work''"
proof -
  have m: "getMatchLevel peer_binding dm_123 = Some Peer"
    by (simp add: getMatchLevel_def peer_binding_def dm_123_def truthy_def)
  have c: "m_peer (b_match channel_binding) = None"
    by (simp add: channel_binding_def)
  have p: "m_peer (b_match peer_binding) \<noteq> None" "b_agentId peer_binding = ''work''"
    by (simp_all add: peer_binding_def)
  from route_by_specificity [of b "[channel_binding, peer_binding]" "''main''" dm_123]
  have "\<forall>p \<in> set [channel_binding, peer_binding].
          m_peer (b_match p) \<noteq> None \<and> getMatchLevel p dm_123 \<noteq> None \<longrightarrow>
          (\<exists>win. r_matchedBinding
                    (route (createRouter [channel_binding, peer_binding] ''main'') dm_123)
                  = Some win
             \<and> r_agentId (route (createRouter [channel_binding, peer_binding] ''main'') dm_123)
                  = b_agentId win
             \<and> r_matchLevel (route (createRouter [channel_binding, peer_binding] ''main'') dm_123)
                  = Peer
             \<and> win \<in> set [channel_binding, peer_binding] \<and> m_peer (b_match win) \<noteq> None
             \<and> getMatchLevel win dm_123 = Some Peer
             \<and> getSpecificityScore p \<le> getSpecificityScore win
             \<and> find (\<lambda>b. getMatchLevel b dm_123 \<noteq> None
                          \<and> getSpecificityScore b = getSpecificityScore win)
                   [channel_binding, peer_binding] = Some win)"
    by blast
  then obtain win where
    "r_matchedBinding (route (createRouter [channel_binding, peer_binding] ''main'') dm_123)
       = Some win"
    "r_agentId (route (createRouter [channel_binding, peer_binding] ''main'') dm_123)
       = b_agentId win"
    "win \<in> set [channel_binding, peer_binding]" "m_peer (b_match win) \<noteq> None"
    using m p(1) by fastforce
  then show ?thesis using m c p by auto
qed

text \<open>
  C5. \<open>route\<close> is a function from contexts to results (there is no failing or null
  branch in its result type). The result has the level \<open>Default\<close> exactly when no binding
  matches the context, and then it is the configured default agent with no matched
  binding.
\<close>

theorem route_default:
  "(r_matchLevel (route (createRouter bs d) ctx) = Default)
     = (\<forall>b \<in> set bs. getMatchLevel b ctx = None)
   \<and> ((\<forall>b \<in> set bs. getMatchLevel b ctx = None) \<longrightarrow>
        route (createRouter bs d) ctx
          = \<lparr>r_agentId = d, r_matchedBinding = None, r_matchLevel = Default\<rparr>)"
proof -
  let ?P = "\<lambda>b. getMatchLevel b ctx \<noteq> None"
  have r: "route (createRouter bs d) ctx =
          (case find ?P (sortBySpecificity bs) of
             None \<Rightarrow> \<lparr>r_agentId = d, r_matchedBinding = None, r_matchLevel = Default\<rparr>
           | Some b \<Rightarrow> \<lparr>r_agentId = b_agentId b, r_matchedBinding = Some b,
                       r_matchLevel = the (getMatchLevel b ctx)\<rparr>)"
    by (simp add: route_def createRouter_def route_loop_find)
  show ?thesis
  proof (cases "find ?P (sortBySpecificity bs)")
    case None
    then have "\<forall>b \<in> set bs. getMatchLevel b ctx = None"
      using find_None_all [of ?P "sortBySpecificity bs"] by (auto simp: set_sortBySpecificity)
    with None r show ?thesis by simp
  next
    case (Some win)
    then have w: "win \<in> set bs" "getMatchLevel win ctx \<noteq> None"
      using find_Some_in [of ?P "sortBySpecificity bs" win] by (simp_all add: set_sortBySpecificity)
    then obtain l where l: "getMatchLevel win ctx = Some l" by auto
    then have "l \<noteq> Default" using level_of_match [OF l] by (auto split: if_splits)
    with Some r w l show ?thesis by auto
  qed
qed

text \<open>The theorem at a slack message, for which neither telegram binding matches.\<close>

theorem route_default_witness:
  "getMatchLevel channel_binding on_slack = None
   \<and> getMatchLevel peer_binding on_slack = None
   \<and> route (createRouter [channel_binding, peer_binding] ''main'') on_slack
       = \<lparr>r_agentId = ''main'', r_matchedBinding = None, r_matchLevel = Default\<rparr>"
proof -
  have n: "getMatchLevel channel_binding on_slack = None"
    "getMatchLevel peer_binding on_slack = None"
    by (simp_all add: getMatchLevel_def channel_binding_def peer_binding_def on_slack_def)
  then have "\<forall>b \<in> set [channel_binding, peer_binding]. getMatchLevel b on_slack = None"
    by simp
  with route_default [of "[channel_binding, peer_binding]" "''main''" on_slack] n
  show ?thesis by blast
qed

section \<open>Conversation keys: properties\<close>

text \<open>
  C6. In per-chat and per-channel mode the key is the lowercased channel. In shared mode
  it is the lowercased channel when that is in the override set and \<^verbatim>\<open>"shared"\<close>
  otherwise; so it is the lowercased channel exactly when that is in the override set or
  is itself \<^verbatim>\<open>"shared"\<close>. An undefined mode behaves as shared.
\<close>

theorem resolveConversationKey_cases:
  "resolveConversationKey channel (Some PerChat) overrides = toLowerCase channel
   \<and> resolveConversationKey channel (Some PerChannel) overrides = toLowerCase channel
   \<and> resolveConversationKey channel (Some Shared) overrides
       = (if toLowerCase channel \<in> overrides then toLowerCase channel else ''shared'')
   \<and> ((resolveConversationKey channel (Some Shared) overrides = toLowerCase channel)
        = (toLowerCase channel \<in> overrides \<or> toLowerCase channel = ''shared''))
   \<and> resolveConversationKey channel None overrides
       = resolveConversationKey channel (Some Shared) overrides"
  by (auto simp: resolveConversationKey_def)

text \<open>The cases of the test file \<^verbatim>\<open>describe('resolveConversationKey', ...)\<close>.\<close>

lemma resolveConversationKey_tests:
  "resolveConversationKey ''telegram'' (Some Shared) {} = ''shared''"
  "resolveConversationKey ''telegram'' (Some PerChannel) {} = ''telegram''"
  "resolveConversationKey ''slack'' (Some Shared) {''slack''} = ''slack''"
  "resolveConversationKey ''telegram'' (Some Shared) {''slack''} = ''shared''"
  "resolveConversationKey ''slack'' (Some Shared) {''slack'', ''discord''} = ''slack''"
  "resolveConversationKey ''discord'' (Some Shared) {''slack'', ''discord''} = ''discord''"
  "resolveConversationKey ''telegram'' (Some Shared) {''slack'', ''discord''} = ''shared''"
  "resolveConversationKey ''SLACK'' (Some Shared) {''slack''} = ''slack''"
  "resolveConversationKey ''Telegram'' (Some PerChannel) {} = ''telegram''"
  "resolveConversationKey ''Slack'' (Some Shared) {''slack''} = ''slack''"
  "resolveConversationKey ''slack'' (Some PerChannel) {''slack''} = ''slack''"
  "resolveConversationKey ''telegram'' None {} = ''shared''"
  by code_simp+

text \<open>
  C7. In per-channel mode the key is \<^verbatim>\<open>"heartbeat"\<close> for \<^verbatim>\<open>"dedicated"\<close>, the last active
  channel (\<^verbatim>\<open>"shared"\<close> when there is none) for \<^verbatim>\<open>"last-active"\<close>, and the setting
  itself for any other value. In shared mode the key is \<^verbatim>\<open>"shared"\<close>, unless the setting
  is \<^verbatim>\<open>"last-active"\<close> and there is a last active channel whose lowercased form is in the
  override set: then it is that channel. The channel is compared in lower case.
\<close>

theorem resolveHeartbeatConversationKey_cases:
  "resolveHeartbeatConversationKey (Some PerChannel) (Some setting) overrides lastActive
     = (if setting = ''dedicated'' then ''heartbeat''
        else if setting = ''last-active''
        then (case lastActive of Some c \<Rightarrow> c | None \<Rightarrow> ''shared'')
        else setting)
   \<and> resolveHeartbeatConversationKey (Some Shared) (Some setting) overrides lastActive
     = (case lastActive of
          Some c \<Rightarrow>
            if setting = ''last-active'' \<and> toLowerCase c \<in> overrides then c else ''shared''
        | None \<Rightarrow> ''shared'')"
  by (simp add: resolveHeartbeatConversationKey_def)

text \<open>The cases of the test file \<^verbatim>\<open>describe('resolveHeartbeatConversationKey', ...)\<close>.\<close>

lemma resolveHeartbeatConversationKey_tests:
  "resolveHeartbeatConversationKey (Some PerChannel) (Some ''dedicated'') {} None = ''heartbeat''"
  "resolveHeartbeatConversationKey (Some PerChannel) (Some ''last-active'') {} (Some ''telegram'')
     = ''telegram''"
  "resolveHeartbeatConversationKey (Some PerChannel) (Some ''last-active'') {} None = ''shared''"
  "resolveHeartbeatConversationKey (Some PerChannel) (Some ''discord'') {} (Some ''telegram'')
     = ''discord''"
  "resolveHeartbeatConversationKey (Some Shared) (Some ''last-active'') {} (Some ''telegram'')
     = ''shared''"
  "resolveHeartbeatConversationKey (Some Shared) None {} (Some ''telegram'') = ''shared''"
  "resolveHeartbeatConversationKey (Some Shared) (Some ''last-active'') {''slack''} (Some ''slack'')
     = ''slack''"
  "resolveHeartbeatConversationKey (Some Shared) (Some ''last-active'') {''slack''}
     (Some ''telegram'') = ''shared''"
  "resolveHeartbeatConversationKey (Some Shared) (Some ''last-active'') {''slack''} None
     = ''shared''"
  "resolveHeartbeatConversationKey (Some Shared) (Some ''dedicated'') {''slack''} (Some ''slack'')
     = ''shared''"
  by code_simp+


section \<open>Agent instance: what each block does to the world\<close>

lemma ext_refl: "ext K w w"
  by (simp add: ext_def)

lemma ext_trans: "ext K a b \<Longrightarrow> ext K b c \<Longrightarrow> ext K a c"
  unfolding ext_def by (elim conjE exE) simp

lemma ext_mono: "ext K w w' \<Longrightarrow> K \<subseteq> K' \<Longrightarrow> ext K' w w'"
  unfolding ext_def by (elim conjE exE) (auto simp: list_all_iff)

lemma ext_emit: "kind_of (Ev c r) \<in> K \<Longrightarrow> ext K w (emit c r w)"
  by (simp add: ext_def emit_def saved_target_def split: option.splits)

lemma ext_state:
  "lastMessageTarget st = lastMessageTarget (state w) \<Longrightarrow> ext K w (w\<lparr>state := st\<rparr>)"
  by (simp add: ext_def saved_target_def split: option.splits)

lemma ext_env_var: "ext K w (w\<lparr>LETTA_AGENT_ID := v\<rparr>)"
  by (simp add: ext_def saved_target_def split: option.splits)

lemma ext_saveState: "KDisk \<in> K \<Longrightarrow> ext K w (saveState env w)"
  by (auto simp: ext_def saveState_def emit_def saved_target_def split: option.splits)

lemma ext_resumeWith:
  "KEstablish \<in> K \<Longrightarrow> resumeWith env ident flags w = (r, w') \<Longrightarrow> ext K w w'"
  by (auto simp: resumeWith_def ext_emit split: option.splits)

lemma ext_openSession:
  assumes "KEstablish \<in> K" "openSession env cfg w = (r, w')"
  shows "ext K w w'"
proof -
  have e: "\<And>c x. kind_of (Ev (CreateAgent c) x) \<in> K" using assms(1) by simp
  show ?thesis
    using assms(2) unfolding openSession_def
    by (auto split: if_splits sum.splits
          intro: ext_trans [OF ext_env_var ext_resumeWith [OF assms(1)]]
                 ext_trans [OF ext_emit [OF e] ext_resumeWith [OF assms(1)]] ext_emit [OF e])
qed


lemma ext_recoverByRecreate:
  assumes K: "{KSession, KEstablish} \<subseteq> K"
    and op: "\<And>s a r b. operation s a = (r, b) \<Longrightarrow> ext K a b"
    and run: "recoverByRecreate operation env session usedD usedS w = (r, session', w')"
  shows "ext K w w'"
proof -
  obtain r1 w1 where first: "operation session w = (r1, w1)" by (cases "operation session w")
  have e1: "ext K w w1" using op [OF first] .
  let ?i = "the (agentId (state w1))"
  let ?w2 = "emit (SessionClose session) None w1"
  let ?w3 = "emit (CreateSession ?i) None ?w2"
  obtain r2 w4 where second: "operation (CreatedSession ?i) ?w3 = (r2, w4)"
    by (cases "operation (CreatedSession ?i) ?w3")
  have e2: "ext K w ?w2"
    using K by (intro ext_trans [OF e1] ext_emit) simp
  have e3: "ext K w ?w3"
    using K by (intro ext_trans [OF e2] ext_emit) simp
  have e4: "ext K w w4"
    by (rule ext_trans [OF e3 op [OF second]])
  have c1: "\<And>e. ext K w (emit (SessionClose session) (Some e) w1)"
    using K by (intro ext_trans [OF e1] ext_emit) simp
  have c2: "\<And>e. ext K w (emit (CreateSession ?i) (Some e) ?w2)"
    using K by (intro ext_trans [OF e2] ext_emit) simp
  have "w' = w1 \<or> w' = w4 \<or> (\<exists>e. w' = emit (SessionClose session) (Some e) w1)
        \<or> (\<exists>e. w' = emit (CreateSession ?i) (Some e) ?w2)"
    using run unfolding recoverByRecreate_def first
    by (auto simp: second split: option.splits if_splits)
  then show ?thesis
    using e1 e4 c1 c2 by (elim disjE exE) simp_all
qed

text \<open>
  The recovery blocks of the source are the spec's policy, applied to
  \<^verbatim>\<open>session.initialize()\<close> under the timeout in \<^verbatim>\<open>handleMessage\<close> and to
  \<^verbatim>\<open>session.send(text)\<close> in \<^verbatim>\<open>sendToAgent\<close>.
\<close>

lemma initializeSession_is_recovery:
  "initializeSession env session usedD usedS w
     = recoverByRecreate (initializeOperation env) env session usedD usedS w"
  by (auto simp: initializeSession_def recoverByRecreate_def initializeOperation_def
        recreateAndInitialize_def Let_def emit_def split: option.splits)


lemma ext_initializeOperation:
  "KSession \<in> K \<Longrightarrow> initializeOperation env s a = (r, b) \<Longrightarrow> ext K a b"
  by (auto simp: initializeOperation_def Let_def ext_emit)


lemma ext_initializeSession:
  assumes K: "{KSession, KEstablish} \<subseteq> K"
    and run: "initializeSession env session usedD usedS w = (r, session', w')"
  shows "ext K w w'"
proof -
  have "\<And>s a r b. initializeOperation env s a = (r, b) \<Longrightarrow> ext K a b"
    using K by (auto intro: ext_initializeOperation)
  from ext_recoverByRecreate [OF K this] run show ?thesis
    by (simp add: initializeSession_is_recovery)
qed


text \<open>Without a resumed conversation there is no recovery: one attempt, no new session.\<close>

lemma initializeSession_not_resumed:
  "initializeSession env session False False w =
     (let r = withTimeout (session_initialize env (trace w) session)
                ''Session initialize'' initTimeoutMs
      in (r, session, emit (SessionInitialize session) r w))"
  by (simp add: initializeSession_def Let_def split: option.splits)

lemma ext_handleSessionResult:
  assumes "{KClock, KDisk, KNaming} \<subseteq> K"
  shows "ext K w (handleSessionResult env cfg session w)"
proof -
  have c: "\<And>v. ext K v (emit ReadClock None v)"
    and n: "\<And>v i m. ext K v (emit (UpdateAgentName i m) None v)"
    and s: "\<And>v. ext K v (saveState env v)"
    using assms by (simp_all add: ext_emit ext_saveState)
  have cs: "\<And>v st. lastMessageTarget st = lastMessageTarget (state v)
              \<Longrightarrow> ext K v ((emit ReadClock None v)\<lparr>state := st\<rparr>)"
    by (rule ext_trans [OF c]) (simp add: ext_state emit_def)
  let ?sa = "session_agentId env (trace w) session"
  let ?sc = "session_conversationId env (trace w) session"
  let ?wa = "(emit ReadClock None w)
               \<lparr>state := (state w)\<lparr>agentId := ?sa,
                  baseUrl := Some (if truthy (LETTA_BASE_URL env)
                                   then the (LETTA_BASE_URL env)
                                   else ''https://api.letta.com''),
                  lastUsedAt := Some (toISOString env (trace w))\<rparr>\<rparr>"
  let ?wb = "(emit ReadClock None ?wa)
               \<lparr>state := (state ?wa)\<lparr>createdAt := Some (toISOString env (trace ?wa))\<rparr>\<rparr>"
  define w1 where "w1 =
     (if truthy ?sa \<and> ?sa \<noteq> agentId (state w) then
        (if \<not> truthy (createdAt (state ?wa)) then ?wb else ?wa)
      else w)"
  define w2 where "w2 =
     (if truthy ?sc \<and> ?sc \<noteq> conversationId (state w1)
      then w1\<lparr>state := (state w1)\<lparr>conversationId := ?sc\<rparr>\<rparr>
      else w1)"
  have a: "ext K w ?wa" by (rule cs) simp
  have b: "ext K ?wa ?wb" by (rule cs) simp
  have 1: "ext K w w1"
    unfolding w1_def using a ext_trans [OF a b] by (simp add: ext_refl)
  have 2: "ext K w1 w2"
    unfolding w2_def by (simp add: ext_refl ext_state)
  have 3: "ext K w (saveState env w2)"
    using 1 2 s ext_trans by blast
  have "handleSessionResult env cfg session w = saveState env w2
        \<or> handleSessionResult env cfg session w
             = emit (UpdateAgentName (the ?sa) (name cfg)) None (saveState env w2)"
    unfolding handleSessionResult_def w2_def w1_def Let_def by simp
  then show ?thesis
    using 3 n ext_trans by metis
qed

lemma ext_streamUpdate:
  "KAdapter \<in> K \<Longrightarrow> streamUpdate env adapter msg l w = (l', w') \<Longrightarrow> ext K w w'"
  by (auto simp: streamUpdate_def Let_def ext_emit split: if_splits option.splits sum.splits)

lemma ext_onAssistant:
  assumes "{KClock, KAdapter} \<subseteq> K" "onAssistant env adapter msg content l w = (l', w')"
  shows "ext K w w'"
proof -
  have c: "\<And>v. ext K v (emit ReadClock None v)"
    using assms(1) by (simp add: ext_emit)
  have u: "\<And>a b c d. streamUpdate env adapter msg a b = (c, d) \<Longrightarrow> ext K b d"
    using assms(1) by (auto intro: ext_streamUpdate)
  show ?thesis
    using assms(2) unfolding onAssistant_def Let_def
    by (auto split: if_splits prod.splits intro: ext_refl c ext_trans [OF c ext_trans [OF u c]])
qed

lemma ext_streamLoop:
  assumes "{KClock, KAdapter, KDisk, KNaming} \<subseteq> K"
  shows "streamLoop env cfg adapter msg session items failure l w = (r, l', w') \<Longrightarrow> ext K w w'"
proof (induction items arbitrary: l w)
  case Nil
  then show ?case by (simp add: ext_refl)
next
  case (Cons item items)
  show ?case
  proof (cases item)
    case (Assistant content)
    obtain l1 w1 where a: "onAssistant env adapter msg content l w = (l1, w1)"
      by (cases "onAssistant env adapter msg content l w")
    have "ext K w w1" using assms a by (auto intro: ext_onAssistant)
    moreover have "ext K w1 w'" using Cons Assistant a by simp
    ultimately show ?thesis by (rule ext_trans)
  next
    case Result
    then show ?thesis using Cons.prems assms by (auto intro: ext_handleSessionResult)
  next
    case OtherMsg
    then show ?thesis using Cons by simp
  qed
qed

lemma ext_streamResponse:
  assumes "{KClock, KAdapter, KDisk, KNaming, KSession} \<subseteq> K"
    and "streamResponse env cfg adapter msg session w = (r, l', w')"
  shows "ext K w w'"
proof -
  have "ext K w (emit (SessionStream session) None (emit ReadClock None w))"
    using assms(1) by (intro ext_trans [OF ext_emit ext_emit]) simp_all
  moreover have "ext K (emit (SessionStream session) None (emit ReadClock None w)) w'"
    using assms unfolding streamResponse_def Let_def by (auto intro: ext_streamLoop)
  ultimately show ?thesis by (rule ext_trans)
qed

lemma ext_sendFinalResponse:
  assumes "KAdapter \<in> K" "sendFinalResponse env adapter msg l w = (r, w')"
  shows "ext K w w'"
proof -
  have s: "\<And>v out x. ext K v (emit (SendMessage adapter out) x v)"
    and e: "\<And>v c m t x. ext K v (emit (EditMessage adapter c m t) x v)"
    using assms(1) by (simp_all add: ext_emit)
  show ?thesis
    using assms(2) unfolding sendFinalResponse_def Let_def
    by (auto split: if_splits sum.splits intro: ext_refl s e ext_trans [OF s s])
qed

lemma ext_catchAndFinally:
  assumes "{KAdapter, KSession} \<subseteq> K" "catchAndFinally env adapter msg r session w = (x, w')"
  shows "ext K w w'"
proof -
  have s: "\<And>v out y. ext K v (emit (SendMessage adapter out) y v)"
    and c: "\<And>v y. ext K v (emit (SessionClose session) y v)"
    using assms(1) by (simp_all add: ext_emit)
  show ?thesis
    using assms(2) unfolding catchAndFinally_def Let_def
    by (auto split: option.splits sum.splits intro: c ext_trans [OF s c])
qed

section \<open>Agent instance: handleMessage as a whole\<close>

lemma trackLastMessageTarget_world:
  "trackLastMessageTarget env msg w =
     (let st1 = (state w)\<lparr>lastMessageTarget := Some (targetOf env msg w)\<rparr>;
          written = writeFileSync env (trace w @ [Ev ReadClock None]) st1;
          w1 = w\<lparr>state := st1,
                 trace := trace w @ [Ev ReadClock None, Ev (WriteStateFile st1) written]\<rparr>
      in if written = None then w1\<lparr>disk := Some st1\<rparr> else w1)"
  by (auto simp: trackLastMessageTarget_def saveState_def emit_def targetOf_def Let_def
        split: option.splits)

lemma ext_initializeSession_flags:
  assumes K: "KSession \<in> K" "usedD \<or> usedS \<Longrightarrow> KEstablish \<in> K"
    and run: "initializeSession env session usedD usedS w = (r, session', w')"
  shows "ext K w w'"
proof (cases "usedD \<or> usedS")
  case True
  with K run show ?thesis by (auto intro: ext_initializeSession)
next
  case False
  with run have "w' = emit (SessionInitialize session) r w"
    by (auto simp: initializeSession_not_resumed Let_def)
  with K(1) show ?thesis by (simp add: ext_emit)
qed

lemma ext_guarded_flags:
  assumes K: "{KClock, KAdapter, KDisk, KNaming, KSession} \<subseteq> K"
      "usedD \<or> usedS \<Longrightarrow> KEstablish \<in> K"
    and run: "guarded env cfg adapter msg session usedD usedS w = (r, session', w')"
  shows "ext K w w'"
proof -
  obtain r1 s1 w1 where i: "initializeSession env session usedD usedS w = (r1, s1, w1)"
    by (cases "initializeSession env session usedD usedS w") auto
  have e1: "ext K w w1" using K i by (auto intro: ext_initializeSession_flags)
  show ?thesis
  proof (cases r1)
    case (Some e)
    with run i e1 show ?thesis by (auto simp: guarded_def)
  next
    case None
    let ?text = "formatMessageEnvelope env msg"
    let ?sent = "withTimeout (session_send env (trace w1) s1 ?text) ''Session send'' initTimeoutMs"
    let ?w2 = "emit (SessionSend s1 ?text) ?sent w1"
    have e2: "ext K w ?w2" using K by (intro ext_trans [OF e1] ext_emit) simp
    show ?thesis
    proof (cases ?sent)
      case (Some e)
      with run i \<open>r1 = None\<close> e2 show ?thesis by (auto simp: guarded_def Let_def)
    next
      case None
      note sent = None
      obtain r3 l3 w3 where s: "streamResponse env cfg adapter msg s1 ?w2 = (r3, l3, w3)"
        by (cases "streamResponse env cfg adapter msg s1 ?w2") auto
      have e3: "ext K w w3" using K s by (auto intro: ext_trans [OF e2] ext_streamResponse)
      show ?thesis
      proof (cases r3)
        case (Some e)
        with run i \<open>r1 = None\<close> sent s e3 show ?thesis by (auto simp: guarded_def Let_def)
      next
        case None
        obtain r4 w4 where f: "sendFinalResponse env adapter msg l3 w3 = (r4, w4)"
          by (cases "sendFinalResponse env adapter msg l3 w3")
        have "ext K w3 w4" using K f by (auto intro: ext_sendFinalResponse)
        moreover have "w' = w4"
          using run i \<open>r1 = None\<close> sent s None f by (simp add: guarded_def Let_def)
        ultimately show ?thesis using e3 ext_trans by blast
      qed
    qed
  qed
qed

text \<open>
  After the last message target is tracked, \<^verbatim>\<open>handleMessage\<close> only calls collaborators,
  and leaves the queue and the tracked target alone.
\<close>

lemma handleMessage_after_tracking:
  assumes run: "handleMessage env cfg msg adapter w = (r, w')"
  shows "ext collaborators (trackLastMessageTarget env msg w) w'"
proof -
  let ?w1 = "trackLastMessageTarget env msg w"
  let ?typing = "sendTypingIndicator env (trace ?w1) adapter (msg_chatId msg)"
  let ?w2 = "emit (SendTypingIndicator adapter (msg_chatId msg)) ?typing ?w1"
  have e2: "ext collaborators ?w1 ?w2"
    by (simp add: ext_emit collaborators_def)
  show ?thesis
  proof (cases ?typing)
    case (Some e)
    with run e2 show ?thesis by (auto simp: handleMessage_def Let_def)
  next
    case None
    note typing = None
    obtain o3 w3 where op: "openSession env cfg ?w2 = (o3, w3)"
      by (cases "openSession env cfg ?w2")
    have e3: "ext collaborators ?w1 w3"
      using op by (intro ext_trans [OF e2] ext_openSession [of _ env cfg]) (simp_all add: collaborators_def)
    show ?thesis
    proof (cases o3)
      case (Inl e)
      with run typing op e3 show ?thesis by (auto simp: handleMessage_def Let_def)
    next
      case (Inr opened)
      obtain session usedD usedS where o: "opened = (session, usedD, usedS)"
        by (cases opened) auto
      obtain r4 s4 w4 where g: "guarded env cfg adapter msg session usedD usedS w3 = (r4, s4, w4)"
        by (cases "guarded env cfg adapter msg session usedD usedS w3") auto
      have e4: "ext collaborators w3 w4"
        using g by (rule ext_guarded_flags [rotated 2]) (simp_all add: collaborators_def)
      have c: "catchAndFinally env adapter msg r4 s4 w4 = (r, w')"
        using run typing op Inr o g by (simp add: handleMessage_def Let_def)
      have "ext collaborators w4 w'"
        using c by (rule ext_catchAndFinally [rotated]) (simp add: collaborators_def)
      with e3 e4 show ?thesis using ext_trans by blast
    qed
  qed
qed

section \<open>Agent instance: failures of a message\<close>

lemma catchAndFinally_error:
  "catchAndFinally env adapter msg (Some error) session w
     = reportAndClose env adapter msg error session w"
  by (simp add: catchAndFinally_def reportAndClose_def Let_def split: sum.splits option.splits)

lemma handleMessage_in_try:
  assumes "sendTypingIndicator env (trace (trackLastMessageTarget env msg w)) adapter
             (msg_chatId msg) = None"
    and "openSession env cfg
           (emit (SendTypingIndicator adapter (msg_chatId msg)) None
              (trackLastMessageTarget env msg w))
         = (Inr (session, usedD, usedS), w3)"
    and "guarded env cfg adapter msg session usedD usedS w3 = (r, session1, w4)"
  shows "handleMessage env cfg msg adapter w = catchAndFinally env adapter msg r session1 w4"
  using assms by (simp add: handleMessage_def Let_def)

lemma guarded_initialize_fails:
  "initializeSession env session usedD usedS w = (Some error, session1, w1)
     \<Longrightarrow> guarded env cfg adapter msg session usedD usedS w = (Some error, session1, w1)"
  by (simp add: guarded_def)

lemma guarded_send_fails:
  "initializeSession env session usedD usedS w = (None, session1, w1)
     \<Longrightarrow> withTimeout (session_send env (trace w1) session1 (formatMessageEnvelope env msg))
           ''Session send'' initTimeoutMs = Some error
     \<Longrightarrow> guarded env cfg adapter msg session usedD usedS w
           = (Some error, session1,
              emit (SessionSend session1 (formatMessageEnvelope env msg)) (Some error) w1)"
  by (simp add: guarded_def Let_def)

text \<open>What \<^verbatim>\<open>handleMessage\<close> leaves alone, from its start.\<close>

lemma handleMessage_world:
  assumes "handleMessage env cfg msg adapter w = (r, w')"
  shows "(\<exists>evs. trace w' = trace w @ evs \<and> list_all (\<lambda>ev. kind_of ev \<in> collaborators) evs)
         \<and> processing w' = processing w \<and> messageQueue w' = messageQueue w
         \<and> inFlight w' = inFlight w"
proof -
  let ?w1 = "trackLastMessageTarget env msg w"
  have t: "\<exists>evs. trace ?w1 = trace w @ evs \<and> list_all (\<lambda>ev. kind_of ev \<in> collaborators) evs"
    and f: "processing ?w1 = processing w" "messageQueue ?w1 = messageQueue w"
       "inFlight ?w1 = inFlight w"
    by (simp_all add: trackLastMessageTarget_world Let_def collaborators_def)
  from handleMessage_after_tracking [OF assms] t f show ?thesis
    unfolding ext_def by (elim conjE exE) simp
qed

text \<open>What going on after \<^verbatim>\<open>await this.handleMessage(...)\<close> does, whatever that returned.\<close>

lemma continueQueue_world:
  assumes "handleMessage env cfg (q_msg entry) (q_adapter entry) w = (r, w')"
  shows "trace (continueQueue env cfg entry w)
           = trace w' @ Ev (Settle (q_promise entry))
                          (case r of Inr _ \<Rightarrow> None | Inl error \<Rightarrow> Some (as_Error error))
               # (case messageQueue w of
                    [] \<Rightarrow> []
                  | next_entry # rest \<Rightarrow> [Ev (Dequeue (q_promise next_entry)) None])"
    and "messageQueue (continueQueue env cfg entry w) = tl (messageQueue w)"
    and "inFlight (continueQueue env cfg entry w)
           = remove1 entry (inFlight w) @ take 1 (messageQueue w)"
    and "processing (continueQueue env cfg entry w)
           = (if messageQueue w = [] then False else processing w)"
    and "state (continueQueue env cfg entry w) = state w'"
  using assms handleMessage_world [OF assms]
  by (auto simp: continueQueue_def whileHead_def emit_def Let_def split: list.splits)

section \<open>The example collaborators, call by call\<close>

lemma show_nat_digits: "show_nat 0 = ''0''" "show_nat 30000 = ''30000''"
  by (simp_all add: show_nat.simps)

lemma calm_calls:
  "Date_now calm = (\<lambda>h. 1000 * int (length h))"
  "toISOString calm = (\<lambda>h. ''T'' @ show_nat (length h))"
  "LETTA_BASE_URL calm = None"
  "writeFileSync calm = (\<lambda>h st. None)"
  "formatMessageEnvelope calm = msg_text"
  "sendTypingIndicator calm = (\<lambda>h a c. None)"
  "supportsEditing calm = (\<lambda>h a. Some False)"
  "sendMessage calm = (\<lambda>h a out. Inr ''m1'')"
  "editMessage calm = (\<lambda>h a c m t. None)"
  "createAgent calm = (\<lambda>h cfg. Inr ''agent-1'')"
  "resumeSession calm = (\<lambda>h i. None)"
  "createSession calm = (\<lambda>h i. None)"
  "session_initialize calm = (\<lambda>h s. (10, None))"
  "session_send calm = (\<lambda>h s t. (10, None))"
  "session_stream calm = (\<lambda>h s. ([Assistant ''hel'', OtherMsg, Assistant ''lo'', Result], None))"
  "session_agentId calm = (\<lambda>h s. Some ''agent-1'')"
  "session_conversationId calm = (\<lambda>h s. Some ''conv-1'')"
  "session_close calm = (\<lambda>h s. None)"
  by (simp_all add: calm_def)

lemma init_fails_calls:
  "Date_now init_fails = (\<lambda>h. 1000 * int (length h))"
  "toISOString init_fails = (\<lambda>h. ''T'' @ show_nat (length h))"
  "LETTA_BASE_URL init_fails = None"
  "writeFileSync init_fails = (\<lambda>h st. None)"
  "formatMessageEnvelope init_fails = msg_text"
  "sendTypingIndicator init_fails = (\<lambda>h a c. None)"
  "supportsEditing init_fails = (\<lambda>h a. Some False)"
  "sendMessage init_fails = (\<lambda>h a out. Inr ''m1'')"
  "editMessage init_fails = (\<lambda>h a c m t. None)"
  "createAgent init_fails = (\<lambda>h cfg. Inr ''agent-1'')"
  "resumeSession init_fails = (\<lambda>h i. None)"
  "createSession init_fails = (\<lambda>h i. None)"
  "session_initialize init_fails = (\<lambda>h s. (10, Some (Error ''boom'')))"
  "session_send init_fails = (\<lambda>h s t. (10, None))"
  "session_close init_fails = (\<lambda>h s. None)"
  by (simp_all add: init_fails_def calm_def)

lemma send_fails_calls:
  "Date_now send_fails = (\<lambda>h. 1000 * int (length h))"
  "toISOString send_fails = (\<lambda>h. ''T'' @ show_nat (length h))"
  "LETTA_BASE_URL send_fails = None"
  "writeFileSync send_fails = (\<lambda>h st. None)"
  "formatMessageEnvelope send_fails = msg_text"
  "sendTypingIndicator send_fails = (\<lambda>h a c. None)"
  "supportsEditing send_fails = (\<lambda>h a. Some False)"
  "sendMessage send_fails = (\<lambda>h a out. Inr ''m1'')"
  "editMessage send_fails = (\<lambda>h a c m t. None)"
  "createAgent send_fails = (\<lambda>h cfg. Inr ''agent-1'')"
  "resumeSession send_fails = (\<lambda>h i. None)"
  "createSession send_fails = (\<lambda>h i. None)"
  "session_initialize send_fails = (\<lambda>h s. (10, None))"
  "session_send send_fails = (\<lambda>h s t. (10, Some (Error ''gone'')))"
  "session_close send_fails = (\<lambda>h s. None)"
  by (simp_all add: send_fails_def calm_def)

lemmas run_defs =
  handleMessage_def trackLastMessageTarget_def saveState_def emit_def openSession_def
  resumeWith_def guarded_def initializeSession_def recreateAndInitialize_def withTimeout_def
  initTimeoutMs_def catchAndFinally_def errorReport_def streamResponse_def
  sendFinalResponse_def handleSessionResult_def onAssistant_def streamUpdate_def
  trim_truthy_def is_space_def empty_state_def truthy_def Let_def show_nat_digits
  fresh_world_def known_world_def hello_def

text \<open>
  C10. \<^verbatim>\<open>handleMessage\<close> first sets the last message target of the state to the channel,
  chat id and message id of the message, stamped with the time just read, and writes the
  state to the state file: the clock read and that write are the first two events of the
  handling, before any call that creates or resumes a session. Whatever the handling
  returns or throws afterwards, the state in memory still holds that target, and so does
  the state file if that first write succeeded (a failing write is swallowed by
  \<^verbatim>\<open>saveState\<close>).
\<close>

theorem lastMessageTarget_tracked_first:
  "\<exists>rest.
     trace (snd (handleMessage env cfg msg adapter w))
       = trace w @ Ev ReadClock None
           # Ev (WriteStateFile ((state w)\<lparr>lastMessageTarget := Some (targetOf env msg w)\<rparr>))
               (writeFileSync env (trace w @ [Ev ReadClock None])
                  ((state w)\<lparr>lastMessageTarget := Some (targetOf env msg w)\<rparr>))
           # rest
     \<and> lastMessageTarget (state (snd (handleMessage env cfg msg adapter w)))
         = Some (targetOf env msg w)
     \<and> (writeFileSync env (trace w @ [Ev ReadClock None])
              ((state w)\<lparr>lastMessageTarget := Some (targetOf env msg w)\<rparr>) = None
        \<longrightarrow> (\<exists>d. disk (snd (handleMessage env cfg msg adapter w)) = Some d
                \<and> lastMessageTarget d = Some (targetOf env msg w)))"
proof -
  let ?st1 = "(state w)\<lparr>lastMessageTarget := Some (targetOf env msg w)\<rparr>"
  let ?written = "writeFileSync env (trace w @ [Ev ReadClock None]) ?st1"
  let ?w1 = "trackLastMessageTarget env msg w"
  obtain r w' where run: "handleMessage env cfg msg adapter w = (r, w')"
    by (cases "handleMessage env cfg msg adapter w")
  have t: "trace ?w1 = trace w @ [Ev ReadClock None, Ev (WriteStateFile ?st1) ?written]"
    and s: "lastMessageTarget (state ?w1) = Some (targetOf env msg w)"
    and d: "?written = None \<Longrightarrow> saved_target ?w1"
    by (simp_all add: trackLastMessageTarget_world Let_def saved_target_def)
  from handleMessage_after_tracking [OF run]
  obtain evs where evs: "trace w' = trace ?w1 @ evs"
    and keep: "lastMessageTarget (state w') = lastMessageTarget (state ?w1)"
    and saved: "saved_target ?w1 \<longrightarrow> saved_target w'"
    unfolding ext_def by blast
  have "?written = None \<Longrightarrow> \<exists>d. disk w' = Some d \<and> lastMessageTarget d = Some (targetOf env msg w)"
    using d saved keep s by (auto simp: saved_target_def split: option.splits)
  then show ?thesis
    using evs keep s t run by (intro exI [of _ evs]) simp
qed

text \<open>
  The theorem at a message whose handling fails: a fresh instance, and a session whose
  initialization is rejected. The first write succeeds, so the target is in memory and in
  the state file after the handling.
\<close>

theorem lastMessageTarget_tracked_first_witness:
  "writeFileSync init_fails (trace fresh_world @ [Ev ReadClock None])
      ((state fresh_world)\<lparr>lastMessageTarget := Some (targetOf init_fails hello fresh_world)\<rparr>)
     = None
   \<and> targetOf init_fails hello fresh_world
       = \<lparr>t_channel = ''telegram'', t_chatId = ''c1'', t_messageId = Some ''42'',
          t_updatedAt = ''T0''\<rparr>
   \<and> lastMessageTarget (state (snd (handleMessage init_fails home hello ''tg'' fresh_world)))
       = Some \<lparr>t_channel = ''telegram'', t_chatId = ''c1'', t_messageId = Some ''42'',
               t_updatedAt = ''T0''\<rparr>
   \<and> (\<exists>d. disk (snd (handleMessage init_fails home hello ''tg'' fresh_world)) = Some d
         \<and> lastMessageTarget d
             = Some \<lparr>t_channel = ''telegram'', t_chatId = ''c1'', t_messageId = Some ''42'',
                     t_updatedAt = ''T0''\<rparr>)"
proof -
  have t: "targetOf init_fails hello fresh_world
       = \<lparr>t_channel = ''telegram'', t_chatId = ''c1'', t_messageId = Some ''42'',
          t_updatedAt = ''T0''\<rparr>"
    by (simp add: targetOf_def init_fails_calls hello_def fresh_world_def show_nat_digits)
  have w: "writeFileSync init_fails (trace fresh_world @ [Ev ReadClock None])
      ((state fresh_world)\<lparr>lastMessageTarget := Some (targetOf init_fails hello fresh_world)\<rparr>)
     = None"
    by (simp add: init_fails_calls)
  from lastMessageTarget_tracked_first [of init_fails home hello "''tg''" fresh_world] w t
  show ?thesis by auto
qed

lemma openSession_without_identity:
  assumes "\<not> truthy (conversationId (state w))" "\<not> truthy (agentId (state w))"
  shows "openSession env cfg w =
     (case createAgent env (trace w) cfg of
        Inl e \<Rightarrow> (Inl e, emit (CreateAgent cfg) (Some e) w)
      | Inr newAgentId \<Rightarrow>
          (case resumeSession env (trace w @ [Ev (CreateAgent cfg) None]) newAgentId of
             None \<Rightarrow>
               (Inr (ResumedSession newAgentId, False, False),
                emit (ResumeSession newAgentId) None (emit (CreateAgent cfg) None w))
           | Some e \<Rightarrow>
               (Inl e, emit (ResumeSession newAgentId) (Some e) (emit (CreateAgent cfg) None w))))"
  using assms
  by (auto simp: openSession_def resumeWith_def emit_def split: sum.splits option.splits)

lemma ext_trace:
  "ext K w w' \<Longrightarrow> \<exists>evs. trace w' = trace w @ evs \<and> list_all (\<lambda>ev. kind_of ev \<in> K) evs"
  by (simp add: ext_def)

text \<open>
  C9. \<open>reset\<close> sets the state to \<^verbatim>\<open>{ agentId: null }\<close> and writes it to the state file (the
  file holds it if the write succeeds). A message handled in that world takes the path
  that creates a new agent: if the typing indicator is sent, the next calls are
  \<^verbatim>\<open>createAgent\<close> and, when that returns an identity, \<^verbatim>\<open>resumeSession\<close> of that new
  identity; the handling makes no other call that creates or resumes a session.
\<close>

theorem reset_then_create_path:
  "state (reset env w) = empty_state
   \<and> (writeFileSync env (trace w) empty_state = None \<longrightarrow> disk (reset env w) = Some empty_state)
   \<and> (let w0 = reset env w;
           st1 = empty_state\<lparr>lastMessageTarget := Some (targetOf env msg w0)\<rparr>;
           h1 = trace w0 @ [Ev ReadClock None,
                  Ev (WriteStateFile st1) (writeFileSync env (trace w0 @ [Ev ReadClock None]) st1)];
           typing = sendTypingIndicator env h1 adapter (msg_chatId msg);
           h2 = h1 @ [Ev (SendTypingIndicator adapter (msg_chatId msg)) typing];
           run = handleMessage env cfg msg adapter w0
       in case typing of
            Some e \<Rightarrow> fst run = Inl e \<and> trace (snd run) = h2
          | None \<Rightarrow>
              (case createAgent env h2 cfg of
                 Inl e \<Rightarrow> fst run = Inl e \<and> trace (snd run) = h2 @ [Ev (CreateAgent cfg) (Some e)]
               | Inr newAgentId \<Rightarrow>
                   (\<exists>rest. trace (snd run)
                       = h2 @ Ev (CreateAgent cfg) None
                           # Ev (ResumeSession newAgentId)
                               (resumeSession env (h2 @ [Ev (CreateAgent cfg) None]) newAgentId)
                           # rest
                      \<and> list_all (\<lambda>ev. kind_of ev \<noteq> KEstablish) rest)))"
proof -
  let ?w0 = "reset env w"
  let ?st1 = "empty_state\<lparr>lastMessageTarget := Some (targetOf env msg ?w0)\<rparr>"
  let ?h1 = "trace ?w0 @ [Ev ReadClock None,
               Ev (WriteStateFile ?st1) (writeFileSync env (trace ?w0 @ [Ev ReadClock None]) ?st1)]"
  let ?typing = "sendTypingIndicator env ?h1 adapter (msg_chatId msg)"
  let ?h2 = "?h1 @ [Ev (SendTypingIndicator adapter (msg_chatId msg)) ?typing]"
  let ?w1 = "trackLastMessageTarget env msg ?w0"
  let ?K = "{KClock, KAdapter, KDisk, KNaming, KSession}"
  let ?run = "handleMessage env cfg msg adapter ?w0"
  define w2 where "w2 = emit (SendTypingIndicator adapter (msg_chatId msg))
                          (sendTypingIndicator env (trace ?w1) adapter (msg_chatId msg)) ?w1"
  have s0: "state ?w0 = empty_state"
    by (simp add: reset_def saveState_def emit_def split: option.splits)
  have d0: "writeFileSync env (trace w) empty_state = None \<Longrightarrow> disk ?w0 = Some empty_state"
    by (simp add: reset_def saveState_def emit_def)
  have t1: "trace ?w1 = ?h1" and s1: "state ?w1 = ?st1"
    by (simp_all add: trackLastMessageTarget_world Let_def s0)
  have t2: "trace w2 = ?h2" and s2: "state w2 = ?st1"
    by (simp_all add: w2_def emit_def t1 s1)
  have no_id: "\<not> truthy (conversationId (state w2))" "\<not> truthy (agentId (state w2))"
    unfolding s2 by (simp_all add: empty_state_def truthy_def)
  note opened = openSession_without_identity [OF no_id, of env cfg, unfolded t2]
  have run: "?run =
     (case ?typing of
        Some e \<Rightarrow> (Inl e, w2)
      | None \<Rightarrow>
          (case openSession env cfg w2 of
             (Inl e, w3) \<Rightarrow> (Inl e, w3)
           | (Inr (session, usedD, usedS), w3) \<Rightarrow>
               (case guarded env cfg adapter msg session usedD usedS w3 of
                  (r, session1, w4) \<Rightarrow> catchAndFinally env adapter msg r session1 w4)))"
    unfolding handleMessage_def Let_def w2_def [symmetric] by (simp add: t1)
  have main: "case ?typing of
            Some e \<Rightarrow> fst ?run = Inl e \<and> trace (snd ?run) = ?h2
          | None \<Rightarrow>
              (case createAgent env ?h2 cfg of
                 Inl e \<Rightarrow> fst ?run = Inl e
                   \<and> trace (snd ?run) = ?h2 @ [Ev (CreateAgent cfg) (Some e)]
               | Inr newAgentId \<Rightarrow>
                   (\<exists>rest. trace (snd ?run)
                       = ?h2 @ Ev (CreateAgent cfg) None
                           # Ev (ResumeSession newAgentId)
                               (resumeSession env (?h2 @ [Ev (CreateAgent cfg) None]) newAgentId)
                           # rest
                      \<and> list_all (\<lambda>ev. kind_of ev \<noteq> KEstablish) rest))"
  proof (cases ?typing)
    case (Some e)
    then show ?thesis
      unfolding run by (simp add: t2)
  next
    case None
    note typing = None
    show ?thesis
    proof (cases "createAgent env ?h2 cfg")
      case (Inl e)
      then show ?thesis
        unfolding run opened using typing by (simp add: emit_def t2)
    next
      case (Inr newAgentId)
      let ?w3 = "emit (CreateAgent cfg) None w2"
      let ?resumed = "resumeSession env (?h2 @ [Ev (CreateAgent cfg) None]) newAgentId"
      let ?w4 = "emit (ResumeSession newAgentId) ?resumed ?w3"
      have t4: "trace ?w4 = ?h2 @ [Ev (CreateAgent cfg) None, Ev (ResumeSession newAgentId) ?resumed]"
        by (simp add: emit_def t2)
      have "\<exists>rest. trace (snd ?run) = trace ?w4 @ rest
               \<and> list_all (\<lambda>ev. kind_of ev \<noteq> KEstablish) rest"
      proof (cases ?resumed)
        case (Some e)
        then have "snd ?run = ?w4"
          unfolding run opened using typing Inr by simp
        then show ?thesis by simp
      next
        case None
        obtain r5 s5 w5 where
          g: "guarded env cfg adapter msg (ResumedSession newAgentId) False False ?w4 = (r5, s5, w5)"
          by (cases "guarded env cfg adapter msg (ResumedSession newAgentId) False False ?w4") auto
        obtain r6 w6 where c: "catchAndFinally env adapter msg r5 s5 w5 = (r6, w6)"
          by (cases "catchAndFinally env adapter msg r5 s5 w5")
        have "ext ?K ?w4 w5"
          using g by (rule ext_guarded_flags [rotated 2]) simp_all
        moreover have "ext ?K w5 w6"
          using c by (rule ext_catchAndFinally [rotated]) simp
        ultimately have "ext ?K ?w4 w6" by (rule ext_trans)
        then obtain rest where rest: "trace w6 = trace ?w4 @ rest"
            "list_all (\<lambda>ev. kind_of ev \<in> ?K) rest"
          using ext_trace by blast
        have "list_all (\<lambda>ev. kind_of ev \<noteq> KEstablish) rest"
          using rest(2) by (auto simp: list_all_iff)
        moreover have "snd ?run = w6"
          unfolding run opened using typing Inr None g c by simp
        ultimately show ?thesis using rest(1) by auto
      qed
      then obtain rest where rest: "trace (snd ?run) = trace ?w4 @ rest"
          "list_all (\<lambda>ev. kind_of ev \<noteq> KEstablish) rest"
        by blast
      have "trace (snd ?run)
              = ?h2 @ Ev (CreateAgent cfg) None # Ev (ResumeSession newAgentId) ?resumed # rest"
        unfolding rest(1) t4 by simp
      with rest(2) have "\<exists>rest. trace (snd ?run)
              = ?h2 @ Ev (CreateAgent cfg) None # Ev (ResumeSession newAgentId) ?resumed # rest
            \<and> list_all (\<lambda>ev. kind_of ev \<noteq> KEstablish) rest"
        by blast
      then show ?thesis
        using typing Inr by simp
    qed
  qed
  show ?thesis
    unfolding Let_def using s0 d0 main by blast
qed

text \<open>
  The theorem at an instance that had stored the agent \<^verbatim>\<open>a0\<close> and the conversation
  \<^verbatim>\<open>c0\<close>: after \<open>reset\<close>, the next message creates the agent \<^verbatim>\<open>agent-1\<close> and resumes it.
\<close>

theorem reset_then_create_path_witness:
  "writeFileSync calm (trace known_world) empty_state = None
   \<and> state (reset calm known_world) = empty_state
   \<and> disk (reset calm known_world) = Some empty_state
   \<and> (\<exists>rest. trace (snd (handleMessage calm home hello ''tg'' (reset calm known_world)))
         = [Ev (WriteStateFile empty_state) None, Ev ReadClock None,
            Ev (WriteStateFile
                  (empty_state\<lparr>lastMessageTarget :=
                     Some \<lparr>t_channel = ''telegram'', t_chatId = ''c1'',
                           t_messageId = Some ''42'', t_updatedAt = ''T1''\<rparr>\<rparr>)) None,
            Ev (SendTypingIndicator ''tg'' ''c1'') None,
            Ev (CreateAgent home) None, Ev (ResumeSession ''agent-1'') None] @ rest
       \<and> list_all (\<lambda>ev. kind_of ev \<noteq> KEstablish) rest)"
proof -
  have w: "writeFileSync calm (trace known_world) empty_state = None"
    by (simp add: calm_calls)
  have t: "trace (reset calm known_world) = [Ev (WriteStateFile empty_state) None]"
    by (simp add: reset_def saveState_def emit_def calm_calls known_world_def fresh_world_def)
  have g: "targetOf calm hello (reset calm known_world)
       = \<lparr>t_channel = ''telegram'', t_chatId = ''c1'', t_messageId = Some ''42'',
          t_updatedAt = ''T1''\<rparr>"
    by (simp add: targetOf_def t calm_calls hello_def show_nat.simps)
  have c: "msg_chatId hello = ''c1''"
    by (simp add: hello_def)
  from reset_then_create_path [of calm known_world hello "''tg''" home] w
  show ?thesis
    by (simp add: Let_def t g c calm_calls)
qed


text \<open>
  C1, as the code has it. When the initialization of the session fails and is not
  recovered (nothing was resumed or no identity is stored, or closing, recreating or the
  second initialization fails), the error text is sent to the adapter of the message and
  the session is closed. \<^verbatim>\<open>handleMessage\<close> does not rethrow: the promise of the message is
  resolved, unless that report or the close throws, and then it is rejected with what
  they threw. Whatever the outcome, the loop goes on with the next entry of the queue.
\<close>

theorem unrecoverable_initialization_reported:
  assumes typing:
      "sendTypingIndicator env (trace (trackLastMessageTarget env (q_msg entry) w))
         (q_adapter entry) (msg_chatId (q_msg entry)) = None"
    and opened:
      "openSession env cfg
         (emit (SendTypingIndicator (q_adapter entry) (msg_chatId (q_msg entry))) None
            (trackLastMessageTarget env (q_msg entry) w))
       = (Inr (session, usedD, usedS), w3)"
    and failed: "initializeSession env session usedD usedS w3 = (Some error, session1, w4)"
  shows
    "(let report = SendMessage (q_adapter entry) (errorReport (q_msg entry) error);
          reported = (case sendMessage env (trace w4) (q_adapter entry)
                             (errorReport (q_msg entry) error) of
                        Inr _ \<Rightarrow> None
                      | Inl e \<Rightarrow> Some e);
          closed = session_close env (trace w4 @ [Ev report reported]) session1;
          settled = (case closed of
                       Some e \<Rightarrow> Some (as_Error e)
                     | None \<Rightarrow> (case reported of Some e \<Rightarrow> Some (as_Error e) | None \<Rightarrow> None))
      in trace (continueQueue env cfg entry w)
           = trace w4 @ [Ev report reported, Ev (SessionClose session1) closed,
                         Ev (Settle (q_promise entry)) settled]
               @ (case messageQueue w of
                    [] \<Rightarrow> []
                  | next_entry # rest \<Rightarrow> [Ev (Dequeue (q_promise next_entry)) None])
         \<and> messageQueue (continueQueue env cfg entry w) = tl (messageQueue w)
         \<and> inFlight (continueQueue env cfg entry w)
             = remove1 entry (inFlight w) @ take 1 (messageQueue w))"
proof -
  let ?msg = "q_msg entry" and ?adapter = "q_adapter entry"
  let ?run = "reportAndClose env ?adapter ?msg error session1 w4"
  have run: "handleMessage env cfg ?msg ?adapter w = (fst ?run, snd ?run)"
    using handleMessage_in_try [OF typing opened guarded_initialize_fails [OF failed]]
    by (simp add: catchAndFinally_error)
  show ?thesis
    unfolding Let_def continueQueue_world [OF run]
    by (simp add: reportAndClose_def Let_def emit_def split: option.splits sum.splits)
qed

text \<open>
  The theorem at a fresh instance (no stored identity) whose new session rejects its
  initialization, with a second message waiting in the queue.
\<close>

theorem unrecoverable_initialization_reported_witness:
  "sendTypingIndicator init_fails
     (trace (trackLastMessageTarget init_fails hello
               (processMessage hello ''tg'' (processMessage hello ''tg'' fresh_world))))
     ''tg'' ''c1'' = None
   \<and> trace (continueQueue init_fails home \<lparr>q_msg = hello, q_adapter = ''tg'', q_promise = 0\<rparr>
              (processMessage hello ''tg'' (processMessage hello ''tg'' fresh_world)))
       = [Ev (Enqueue 0) None, Ev (Dequeue 0) None, Ev (Enqueue 1) None, Ev ReadClock None,
          Ev (WriteStateFile
                (empty_state\<lparr>lastMessageTarget :=
                   Some \<lparr>t_channel = ''telegram'', t_chatId = ''c1'',
                         t_messageId = Some ''42'', t_updatedAt = ''T3''\<rparr>\<rparr>)) None,
          Ev (SendTypingIndicator ''tg'' ''c1'') None,
          Ev (CreateAgent home) None, Ev (ResumeSession ''agent-1'') None,
          Ev (SessionInitialize (ResumedSession ''agent-1'')) (Some (Error ''boom'')),
          Ev (SendMessage ''tg''
                \<lparr>out_chatId = ''c1'', out_text = ''Error: boom'', out_threadId = None\<rparr>) None,
          Ev (SessionClose (ResumedSession ''agent-1'')) None,
          Ev (Settle 0) None, Ev (Dequeue 1) None]
   \<and> inFlight (continueQueue init_fails home \<lparr>q_msg = hello, q_adapter = ''tg'', q_promise = 0\<rparr>
                 (processMessage hello ''tg'' (processMessage hello ''tg'' fresh_world)))
       = [\<lparr>q_msg = hello, q_adapter = ''tg'', q_promise = 1\<rparr>]"
proof -
  let ?e0 = "\<lparr>q_msg = hello, q_adapter = ''tg'', q_promise = 0\<rparr>"
  let ?e1 = "\<lparr>q_msg = hello, q_adapter = ''tg'', q_promise = 1\<rparr>"
  define w where "w = processMessage hello ''tg'' (processMessage hello ''tg'' fresh_world)"
  define st where "st = empty_state\<lparr>lastMessageTarget :=
                   Some \<lparr>t_channel = ''telegram'', t_chatId = ''c1'',
                         t_messageId = Some ''42'', t_updatedAt = ''T3''\<rparr>\<rparr>"
  have w: "w = \<lparr>state = empty_state, processing = True, messageQueue = [?e1], inFlight = [?e0],
                disk = None, LETTA_AGENT_ID = None,
                trace = [Ev (Enqueue 0) None, Ev (Dequeue 0) None, Ev (Enqueue 1) None]\<rparr>"
    by (simp add: w_def processMessage_def processQueue_def whileHead_def emit_def
          fresh_world_def Let_def)
  let ?h = "[Ev (Enqueue 0) None, Ev (Dequeue 0) None, Ev (Enqueue 1) None, Ev ReadClock None,
             Ev (WriteStateFile st) None]"
  have tracked: "trackLastMessageTarget init_fails hello w
       = \<lparr>state = st, processing = True, messageQueue = [?e1], inFlight = [?e0],
          disk = Some st, LETTA_AGENT_ID = None, trace = ?h\<rparr>"
    by (simp add: w st_def trackLastMessageTarget_def saveState_def emit_def Let_def
          init_fails_calls hello_def show_nat.simps)
  let ?w3 = "\<lparr>state = st, processing = True, messageQueue = [?e1], inFlight = [?e0],
          disk = Some st, LETTA_AGENT_ID = None,
          trace = ?h @ [Ev (SendTypingIndicator ''tg'' ''c1'') None,
                        Ev (CreateAgent home) None, Ev (ResumeSession ''agent-1'') None]\<rparr>"
  let ?w4 = "?w3\<lparr>trace := trace ?w3
                @ [Ev (SessionInitialize (ResumedSession ''agent-1'')) (Some (Error ''boom''))]\<rparr>"
  have chat: "msg_chatId hello = ''c1''" "msg_threadId hello = None"
    by (simp_all add: hello_def)
  have typing: "sendTypingIndicator init_fails
       (trace (trackLastMessageTarget init_fails (q_msg ?e0) w)) (q_adapter ?e0)
       (msg_chatId (q_msg ?e0)) = None"
    by (simp add: init_fails_calls)
  have opened: "openSession init_fails home
         (emit (SendTypingIndicator (q_adapter ?e0) (msg_chatId (q_msg ?e0))) None
            (trackLastMessageTarget init_fails (q_msg ?e0) w))
       = (Inr (ResumedSession ''agent-1'', False, False), ?w3)"
    by (simp add: tracked chat st_def openSession_def resumeWith_def emit_def init_fails_calls
          empty_state_def truthy_def)
  have failed: "initializeSession init_fails (ResumedSession ''agent-1'') False False ?w3
       = (Some (Error ''boom''), ResumedSession ''agent-1'', ?w4)"
    by (simp add: initializeSession_def withTimeout_def initTimeoutMs_def emit_def
          init_fails_calls Let_def)
  from unrecoverable_initialization_reported [OF typing opened failed]
  show ?thesis
    unfolding w_def [symmetric]
    by (simp add: Let_def init_fails_calls errorReport_def chat tracked)
       (simp add: w st_def)
qed

text \<open>
  The claim as the spec states it fails at this input: the instance has no stored
  identity, the initialization of the new session is rejected, and the promise of the
  message is resolved (\<open>Ev (Settle 0) None\<close>), not rejected with the error.
\<close>

theorem unrecoverable_initialization_counterexample:
  "trace (continueQueue init_fails home \<lparr>q_msg = hello, q_adapter = ''tg'', q_promise = 0\<rparr>
            (processMessage hello ''tg'' fresh_world))
     = [Ev (Enqueue 0) None, Ev (Dequeue 0) None, Ev ReadClock None,
        Ev (WriteStateFile
              (empty_state\<lparr>lastMessageTarget :=
                 Some \<lparr>t_channel = ''telegram'', t_chatId = ''c1'',
                       t_messageId = Some ''42'', t_updatedAt = ''T2''\<rparr>\<rparr>)) None,
        Ev (SendTypingIndicator ''tg'' ''c1'') None,
        Ev (CreateAgent home) None, Ev (ResumeSession ''agent-1'') None,
        Ev (SessionInitialize (ResumedSession ''agent-1'')) (Some (Error ''boom'')),
        Ev (SendMessage ''tg''
              \<lparr>out_chatId = ''c1'', out_text = ''Error: boom'', out_threadId = None\<rparr>) None,
        Ev (SessionClose (ResumedSession ''agent-1'')) None,
        Ev (Settle 0) None]"
  by (simp add: continueQueue_def processMessage_def processQueue_def whileHead_def
        init_fails_calls run_defs show_nat.simps)

text \<open>
  C2, as the code has it. The send runs under the same timeout as the initialization
  (\<open>initTimeoutMs\<close>, 30000 ms: an operation that has not settled by then counts as failed
  with a time-out error). It is attempted once and has no recovery: when the send fails
  or times out after the session was initialized, whatever was resumed and whatever
  identity is stored, \<^verbatim>\<open>handleMessage\<close> creates no session and sends nothing again; it
  reports the error text to the adapter and closes the session.
\<close>

theorem send_failure_not_retried:
  assumes typing:
      "sendTypingIndicator env (trace (trackLastMessageTarget env msg w)) adapter
         (msg_chatId msg) = None"
    and opened:
      "openSession env cfg
         (emit (SendTypingIndicator adapter (msg_chatId msg)) None
            (trackLastMessageTarget env msg w))
       = (Inr (session, usedD, usedS), w3)"
    and initialized: "initializeSession env session usedD usedS w3 = (None, session1, w4)"
    and failed:
      "withTimeout (session_send env (trace w4) session1 (formatMessageEnvelope env msg))
         ''Session send'' initTimeoutMs = Some error"
  shows
    "(let report = SendMessage adapter (errorReport msg error);
          sending = Ev (SessionSend session1 (formatMessageEnvelope env msg)) (Some error);
          reported = (case sendMessage env (trace w4 @ [sending]) adapter
                             (errorReport msg error) of
                        Inr _ \<Rightarrow> None
                      | Inl e \<Rightarrow> Some e);
          closed = session_close env (trace w4 @ [sending, Ev report reported]) session1
      in trace (snd (handleMessage env cfg msg adapter w))
           = trace w4 @ [sending, Ev report reported, Ev (SessionClose session1) closed]
         \<and> fst (handleMessage env cfg msg adapter w)
             = (case closed of
                  Some e \<Rightarrow> Inl e
                | None \<Rightarrow> (case reported of Some e \<Rightarrow> Inl e | None \<Rightarrow> Inr ())))
     \<and> withTimeout (elapsed, outcome) label initTimeoutMs
         = (if elapsed < 30000 then outcome
            else Some (Error (label @ '' timed out after 30000ms'')))
     \<and> fst (initializeSession env session False False w)
         = withTimeout (session_initialize env (trace w) session)
             ''Session initialize'' initTimeoutMs"
proof -
  let ?w5 = "emit (SessionSend session1 (formatMessageEnvelope env msg)) (Some error) w4"
  have run: "handleMessage env cfg msg adapter w = reportAndClose env adapter msg error session1 ?w5"
    using handleMessage_in_try [OF typing opened guarded_send_fails [OF initialized failed]]
    by (simp add: catchAndFinally_error)
  have 1: "let report = SendMessage adapter (errorReport msg error);
          sending = Ev (SessionSend session1 (formatMessageEnvelope env msg)) (Some error);
          reported = (case sendMessage env (trace w4 @ [sending]) adapter
                             (errorReport msg error) of
                        Inr _ \<Rightarrow> None
                      | Inl e \<Rightarrow> Some e);
          closed = session_close env (trace w4 @ [sending, Ev report reported]) session1
      in trace (snd (handleMessage env cfg msg adapter w))
           = trace w4 @ [sending, Ev report reported, Ev (SessionClose session1) closed]
         \<and> fst (handleMessage env cfg msg adapter w)
             = (case closed of
                  Some e \<Rightarrow> Inl e
                | None \<Rightarrow> (case reported of Some e \<Rightarrow> Inl e | None \<Rightarrow> Inr ()))"
    unfolding run by (simp add: reportAndClose_def Let_def emit_def)
  have 2: "withTimeout (elapsed, outcome) label initTimeoutMs
         = (if elapsed < 30000 then outcome
            else Some (Error (label @ '' timed out after 30000ms'')))"
    by (simp add: withTimeout_def initTimeoutMs_def show_nat_digits)
  have 3: "fst (initializeSession env session False False w)
         = withTimeout (session_initialize env (trace w) session)
             ''Session initialize'' initTimeoutMs"
    by (simp add: initializeSession_not_resumed Let_def)
  from 1 2 3 show ?thesis by blast
qed

text \<open>
  The theorem at an instance that has stored an agent and a conversation: the
  conversation is resumed and initialized, and the send is rejected.
\<close>

theorem send_failure_not_retried_witness:
  "sendTypingIndicator send_fails (trace (trackLastMessageTarget send_fails hello known_world))
     ''tg'' (msg_chatId hello) = None
   \<and> withTimeout
        (session_send send_fails
           [Ev ReadClock None,
            Ev (WriteStateFile (state (trackLastMessageTarget send_fails hello known_world))) None,
            Ev (SendTypingIndicator ''tg'' ''c1'') None, Ev (ResumeSession ''c0'') None,
            Ev (SessionInitialize (ResumedSession ''c0'')) None]
           (ResumedSession ''c0'') (formatMessageEnvelope send_fails hello))
        ''Session send'' initTimeoutMs = Some (Error ''gone'')
   \<and> trace (snd (handleMessage send_fails home hello ''tg'' known_world))
       = [Ev ReadClock None,
          Ev (WriteStateFile (state (trackLastMessageTarget send_fails hello known_world))) None,
          Ev (SendTypingIndicator ''tg'' ''c1'') None, Ev (ResumeSession ''c0'') None,
          Ev (SessionInitialize (ResumedSession ''c0'')) None,
          Ev (SessionSend (ResumedSession ''c0'') ''hello'') (Some (Error ''gone'')),
          Ev (SendMessage ''tg''
                \<lparr>out_chatId = ''c1'', out_text = ''Error: gone'', out_threadId = None\<rparr>) None,
          Ev (SessionClose (ResumedSession ''c0'')) None]
   \<and> fst (handleMessage send_fails home hello ''tg'' known_world) = Inr ()"
proof -
  define w1 where "w1 = trackLastMessageTarget send_fails hello known_world"
  have chat: "msg_chatId hello = ''c1''" "msg_threadId hello = None" "msg_text hello = ''hello''"
    by (simp_all add: hello_def)
  have ids: "agentId (state w1) = Some ''a0''" "conversationId (state w1) = Some ''c0''"
    and t1: "trace w1 = [Ev ReadClock None, Ev (WriteStateFile (state w1)) None]"
    by (simp_all add: w1_def trackLastMessageTarget_world targetOf_def Let_def known_world_def
          fresh_world_def empty_state_def send_fails_calls)
  let ?h3 = "[Ev ReadClock None, Ev (WriteStateFile (state w1)) None,
             Ev (SendTypingIndicator ''tg'' ''c1'') None, Ev (ResumeSession ''c0'') None]"
  let ?w3 = "w1\<lparr>LETTA_AGENT_ID := Some ''a0'', trace := ?h3\<rparr>"
  let ?w4 = "?w3\<lparr>trace := ?h3 @ [Ev (SessionInitialize (ResumedSession ''c0'')) None]\<rparr>"
  have typing: "sendTypingIndicator send_fails (trace w1) ''tg'' (msg_chatId hello) = None"
    by (simp add: send_fails_calls)
  have opened: "openSession send_fails home
         (emit (SendTypingIndicator ''tg'' (msg_chatId hello)) None w1)
       = (Inr (ResumedSession ''c0'', False, True), ?w3)"
    by (simp add: openSession_def resumeWith_def emit_def send_fails_calls chat ids t1 truthy_def)
  have initialized: "initializeSession send_fails (ResumedSession ''c0'') False True ?w3
       = (None, ResumedSession ''c0'', ?w4)"
    by (simp add: initializeSession_def withTimeout_def initTimeoutMs_def emit_def
          send_fails_calls)
  have failed: "withTimeout
      (session_send send_fails (trace ?w4) (ResumedSession ''c0'')
         (formatMessageEnvelope send_fails hello))
      ''Session send'' initTimeoutMs = Some (Error ''gone'')"
    by (simp add: withTimeout_def initTimeoutMs_def send_fails_calls)
  from send_failure_not_retried
         [OF typing [unfolded w1_def] opened [unfolded w1_def] initialized [unfolded w1_def]
             failed [unfolded w1_def]]
  show ?thesis
    unfolding w1_def [symmetric]
    by (simp add: Let_def send_fails_calls errorReport_def chat t1 withTimeout_def
          initTimeoutMs_def)
qed

text \<open>
  The claim as the spec states it fails at this input: the instance has stored the agent
  \<^verbatim>\<open>a0\<close> and resumes the conversation \<^verbatim>\<open>c0\<close>, the send is rejected, and the handling
  neither creates a session for \<^verbatim>\<open>a0\<close> nor sends again.
\<close>

theorem send_retry_counterexample:
  "trace (snd (handleMessage send_fails home hello ''tg'' known_world))
     = [Ev ReadClock None,
        Ev (WriteStateFile
              \<lparr>agentId = Some ''a0'', conversationId = Some ''c0'', baseUrl = None,
               createdAt = None, lastUsedAt = None,
               lastMessageTarget =
                 Some \<lparr>t_channel = ''telegram'', t_chatId = ''c1'',
                       t_messageId = Some ''42'', t_updatedAt = ''T0''\<rparr>\<rparr>) None,
        Ev (SendTypingIndicator ''tg'' ''c1'') None, Ev (ResumeSession ''c0'') None,
        Ev (SessionInitialize (ResumedSession ''c0'')) None,
        Ev (SessionSend (ResumedSession ''c0'') ''hello'') (Some (Error ''gone'')),
        Ev (SendMessage ''tg''
              \<lparr>out_chatId = ''c1'', out_text = ''Error: gone'', out_threadId = None\<rparr>) None,
        Ev (SessionClose (ResumedSession ''c0'')) None]"
  by (simp add: send_fails_calls run_defs)


section \<open>Agent instance: sendToAgent\<close>


















section \<open>Agent instance: one message at a time\<close>

lemma enqueued_append: "enqueued (xs @ ys) = enqueued xs @ enqueued ys"
  by (induction xs rule: enqueued.induct) simp_all

lemma dequeued_append: "dequeued (xs @ ys) = dequeued xs @ dequeued ys"
  by (induction xs rule: dequeued.induct) simp_all

lemma scan_None: "foldl scan None es = None"
  by (induction es) simp_all

lemma scan_collaborator:
  "kind_of ev \<in> collaborators \<Longrightarrow> scan (Some (Some p)) ev = Some (Some p)"
  by (cases ev rule: kind_of.cases) (simp_all add: collaborators_def)

lemma collaborator_events:
  "list_all (\<lambda>ev. kind_of ev \<in> collaborators) evs \<Longrightarrow>
     enqueued evs = [] \<and> dequeued evs = [] \<and> foldl scan (Some (Some p)) evs = Some (Some p)"
proof (induction evs)
  case Nil
  then show ?case by simp
next
  case (Cons ev evs)
  then have k: "kind_of ev \<in> collaborators" by simp
  then have "enqueued (ev # evs) = enqueued evs" "dequeued (ev # evs) = dequeued evs"
    by (cases ev rule: kind_of.cases; simp add: collaborators_def)+
  with Cons k show ?case by (simp add: scan_collaborator)
qed

lemma invariant_fresh:
  "queue_invariant
     \<lparr>state = st, processing = False, messageQueue = [], inFlight = [], disk = d,
      LETTA_AGENT_ID = v, trace = []\<rparr>"
  by (simp add: queue_invariant_def)

lemma invariant_processMessage:
  assumes "queue_invariant w"
  shows "queue_invariant (processMessage msg adapter w)"
proof (cases "inFlight w")
  case Nil
  with assms have "\<not> processing w" "messageQueue w = []"
    by (auto simp: queue_invariant_def)
  with assms Nil show ?thesis
    by (simp add: queue_invariant_def processMessage_def processQueue_def whileHead_def
          emit_def Let_def enqueued_append dequeued_append)
next
  case (Cons entry rest)
  with assms have "processing w" "rest = []"
    by (auto simp: queue_invariant_def)
  with assms Cons show ?thesis
    by (auto simp: queue_invariant_def processMessage_def emit_def Let_def enqueued_append
          dequeued_append)
qed

lemma invariant_continueQueue:
  assumes inv: "queue_invariant w" and e: "entry \<in> set (inFlight w)"
  shows "queue_invariant (continueQueue env cfg entry w)"
proof -
  have fl: "inFlight w = [entry]"
    using inv e by (cases "inFlight w") (auto simp: queue_invariant_def)
  obtain r w' where run: "handleMessage env cfg (q_msg entry) (q_adapter entry) w = (r, w')"
    by (cases "handleMessage env cfg (q_msg entry) (q_adapter entry) w")
  from handleMessage_world [OF run] obtain evs where
    evs: "trace w' = trace w @ evs" "list_all (\<lambda>ev. kind_of ev \<in> collaborators) evs"
    by blast
  note c = collaborator_events [OF evs(2), of "q_promise entry"]
  note q = continueQueue_world [OF run]
  have s: "foldl scan (Some None) (trace w') = Some (Some (q_promise entry))"
    using inv fl c by (simp add: queue_invariant_def evs(1))
  have n: "enqueued (trace w') = enqueued (trace w)" "dequeued (trace w') = dequeued (trace w)"
    using c by (simp_all add: evs(1) enqueued_append dequeued_append)
  show ?thesis
  proof (cases "messageQueue w")
    case Nil
    with inv fl s n show ?thesis
      by (simp add: queue_invariant_def q enqueued_append dequeued_append)
  next
    case (Cons next_entry rest)
    with inv fl s n show ?thesis
      by (auto simp: queue_invariant_def q enqueued_append dequeued_append)
  qed
qed

lemma reachable_invariant: "reachable env cfg w \<Longrightarrow> queue_invariant w"
  by (induction rule: reachable.induct)
     (simp_all add: invariant_fresh invariant_processMessage invariant_continueQueue)

lemma scan_prefix: "foldl scan s (xs @ ys) \<noteq> None \<Longrightarrow> foldl scan s xs \<noteq> None"
  by (cases "foldl scan s xs") (simp_all add: scan_None)

text \<open>In a schedule, every message taken off the queue is settled or is the one in flight.\<close>

lemma scan_settled:
  "foldl scan (Some None) es = Some cur \<Longrightarrow> p \<in> set (dequeued es)
     \<Longrightarrow> (\<exists>r. Ev (Settle p) r \<in> set es) \<or> cur = Some p"
proof (induction es arbitrary: cur rule: rev_induct)
  case Nil
  then show ?case by simp
next
  case (snoc ev es)
  obtain before where b: "foldl scan (Some None) es = Some before"
    using snoc.prems(1) scan_prefix [of "Some None" es "[ev]"] by auto
  have step: "scan (Some before) ev = Some cur"
    using snoc.prems(1) b by simp
  show ?case
  proof (cases "p \<in> set (dequeued es)")
    case True
    from snoc.IH [OF b True] show ?thesis
    proof
      assume "\<exists>r. Ev (Settle p) r \<in> set es"
      then show ?thesis by auto
    next
      assume "before = Some p"
      with step show ?thesis
        by (cases ev rule: kind_of.cases) (auto split: if_splits)
    qed
  next
    case False
    with snoc.prems(2) have "p \<in> set (dequeued [ev])"
      by (simp add: dequeued_append)
    then obtain r where "ev = Ev (Dequeue p) r"
      by (cases ev rule: kind_of.cases) simp_all
    with step show ?thesis by (auto split: if_splits)
  qed
qed

lemma upt_split:
  assumes "[0..<n] = xs @ p # ys"
  shows "xs = [0..<p]"
proof -
  have len: "length xs < n"
    using arg_cong [OF assms, of length] by simp
  have "[0..<n] ! length xs = p"
    by (simp add: assms)
  with len have p: "length xs = p" by simp
  have "xs = take (length xs) [0..<n]"
    by (simp add: assms)
  with p len show ?thesis by (simp add: take_upt)
qed

text \<open>
  C3. In every world an instance reaches by calls of \<^verbatim>\<open>processMessage\<close> and by its
  handlers settling, in any order: the history is a schedule (a message is taken off the
  queue only while none is being handled, collaborators are called only for the message
  being handled, and its promise is settled before the next is taken); messages are taken
  in the order of submission; and when the handling of a message begins, the promise of
  every message submitted before it has been settled.
\<close>

theorem one_message_at_a_time:
  assumes "reachable env cfg w"
  shows "serial (trace w)
     \<and> length (inFlight w) \<le> 1
     \<and> enqueued (trace w) = [0..<length (enqueued (trace w))]
     \<and> prefix (dequeued (trace w)) (enqueued (trace w))
     \<and> (\<forall>h p r rest q. trace w = h @ Ev (Dequeue p) r # rest \<and> q < p
           \<longrightarrow> (\<exists>r'. Ev (Settle q) r' \<in> set h))"
proof -
  define N where "N = length (enqueued (trace w))"
  from reachable_invariant [OF assms] have
    s: "foldl scan (Some None) (trace w) \<noteq> None"
    and l: "length (inFlight w) \<le> 1"
    and n: "enqueued (trace w) = [0..<N]"
    and d: "dequeued (trace w) @ map q_promise (messageQueue w) = enqueued (trace w)"
    by (simp_all add: queue_invariant_def N_def)
  have pre: "prefix (dequeued (trace w)) (enqueued (trace w))"
    using d by (metis prefixI)
  have pairs: "\<exists>r'. Ev (Settle q) r' \<in> set h"
    if t: "trace w = h @ Ev (Dequeue p) r # rest" and qp: "q < p" for h p r rest q
  proof -
    have "foldl scan (Some None) (h @ [Ev (Dequeue p) r]) \<noteq> None"
      using s scan_prefix [of "Some None" "h @ [Ev (Dequeue p) r]" rest] by (simp add: t)
    then obtain cur where cur: "foldl scan (Some None) h = Some cur"
        and free: "scan (Some cur) (Ev (Dequeue p) r) \<noteq> None"
      by (cases "foldl scan (Some None) h") (simp_all add: scan_None)
    from free have none: "cur = None" by (simp split: if_splits)
    have "dequeued (trace w) = dequeued h @ p # dequeued rest"
      by (simp add: t dequeued_append)
    with d have "enqueued (trace w)
                   = dequeued h @ p # (dequeued rest @ map q_promise (messageQueue w))"
      by simp
    then have "[0..<N] = dequeued h @ p # (dequeued rest @ map q_promise (messageQueue w))"
      unfolding n .
    then have "dequeued h = [0..<p]" by (rule upt_split)
    with qp have "q \<in> set (dequeued h)" by simp
    from scan_settled [OF cur this] none show ?thesis by simp
  qed
  show ?thesis
    using s l n pre pairs unfolding serial_def N_def by blast
qed

text \<open>
  The theorem at two messages submitted in a row to a fresh instance, after the handling
  of the first has settled: the second is taken off the queue after the promise of the
  first is settled.
\<close>

theorem one_message_at_a_time_witness:
  "reachable calm home
     (continueQueue calm home \<lparr>q_msg = hello, q_adapter = ''tg'', q_promise = 0\<rparr>
        (processMessage hello ''tg'' (processMessage hello ''tg'' fresh_world)))
   \<and> serial (trace
        (continueQueue calm home \<lparr>q_msg = hello, q_adapter = ''tg'', q_promise = 0\<rparr>
           (processMessage hello ''tg'' (processMessage hello ''tg'' fresh_world))))
   \<and> (\<exists>h r'. trace
          (continueQueue calm home \<lparr>q_msg = hello, q_adapter = ''tg'', q_promise = 0\<rparr>
             (processMessage hello ''tg'' (processMessage hello ''tg'' fresh_world)))
        = h @ [Ev (Dequeue 1) None]
        \<and> Ev (Settle 0) r' \<in> set h)"
proof -
  let ?e0 = "\<lparr>q_msg = hello, q_adapter = ''tg'', q_promise = 0\<rparr>"
  let ?e1 = "\<lparr>q_msg = hello, q_adapter = ''tg'', q_promise = 1\<rparr>"
  define w where "w = processMessage hello ''tg'' (processMessage hello ''tg'' fresh_world)"
  have w: "w = \<lparr>state = empty_state, processing = True, messageQueue = [?e1], inFlight = [?e0],
                disk = None, LETTA_AGENT_ID = None,
                trace = [Ev (Enqueue 0) None, Ev (Dequeue 0) None, Ev (Enqueue 1) None]\<rparr>"
    by (simp add: w_def processMessage_def processQueue_def whileHead_def emit_def
          fresh_world_def Let_def)
  have "reachable calm home fresh_world"
    unfolding fresh_world_def by (rule reachable.fresh)
  then have "reachable calm home w"
    unfolding w_def by (intro reachable.submit)
  moreover have "?e0 \<in> set (inFlight w)"
    by (simp add: w)
  ultimately have r: "reachable calm home (continueQueue calm home ?e0 w)"
    by (rule reachable.settle)
  obtain x w' where run: "handleMessage calm home (q_msg ?e0) (q_adapter ?e0) w = (x, w')"
    by (cases "handleMessage calm home (q_msg ?e0) (q_adapter ?e0) w")
  have t: "trace (continueQueue calm home ?e0 w)
             = (trace w' @ [Ev (Settle 0) (case x of Inr _ \<Rightarrow> None
                                           | Inl error \<Rightarrow> Some (as_Error error))])
               @ Ev (Dequeue 1) None # []"
    using continueQueue_world(1) [OF run] by (simp add: w)
  from one_message_at_a_time [OF r]
  have "serial (trace (continueQueue calm home ?e0 w))"
    and "\<forall>h p r rest q. trace (continueQueue calm home ?e0 w) = h @ Ev (Dequeue p) r # rest
            \<and> q < p \<longrightarrow> (\<exists>r'. Ev (Settle q) r' \<in> set h)"
    by blast+
  with t have "serial (trace (continueQueue calm home ?e0 w))"
    and "\<exists>r'. Ev (Settle 0) r'
           \<in> set (trace w' @ [Ev (Settle 0) (case x of Inr _ \<Rightarrow> None
                                               | Inl error \<Rightarrow> Some (as_Error error))])"
    by (blast, metis zero_less_one)
  with r t show ?thesis
    unfolding w_def [symmetric] by (metis append_Cons append_Nil)
qed

end
